theory Spec2Isabelle
  imports Complex_Main "HOL-Library.Word"
begin

section \<open>Shared types\<close>

text \<open>
  A Go \<open>[]byte\<close> is a list of 8-bit words. Converting it with \<open>string(bs)\<close> keeps the
  bytes as they are, so a map keyed by \<open>string(bs)\<close> is a map keyed by the byte list.
\<close>

type_synonym bytes = "8 word list"

text \<open>
  Go \<open>error\<close> values. \<open>Errorf msg\<close> is \<open>fmt.Errorf(msg)\<close> without a wrapped error,
  \<open>Wrapf msg e\<close> is \<open>fmt.Errorf(msg + ": %w", e)\<close>. A nil error is \<open>None\<close> of
  \<open>error option\<close>.
\<close>

datatype error = Errorf string | Wrapf string error

section \<open>The extended commit info validator (package proposals)\<close>

subsection \<open>The ABCI data the validator reads\<close>

record Validator =
  Address :: bytes
  Power :: "64 word"

record ExtendedVoteInfo =
  evi_Validator :: Validator
  VoteExtension :: bytes
  ExtensionSignature :: bytes
  evi_BlockIdFlag :: "32 word"

record VoteInfo =
  vi_Validator :: Validator
  vi_BlockIdFlag :: "32 word"

record ExtendedCommitInfo =
  eci_Round :: "32 word"
  eci_Votes :: "ExtendedVoteInfo list"

record CommitInfo =
  ci_Round :: "32 word"
  ci_Votes :: "VoteInfo list"

record RequestProcessProposal =
  Txs :: "bytes list"
  ProposedLastCommit :: CommitInfo
  Hash :: bytes
  Height :: "64 word"
  ProposerAddress :: bytes

subsection \<open>The handler, its collaborators and what a call can touch\<close>

text \<open>
  The values handed to \<open>h.logger.Error\<close>: an \<open>int64\<close> height, the validator address
  rendered by \<open>address.String()\<close> (\<open>LAddr\<close>) or by \<open>string(address)\<close> (\<open>LRaw\<close>), and
  an error.
\<close>

datatype logval = LInt "64 word" | LAddr bytes | LRaw bytes | LErr error

type_synonym log_entry = "string \<times> (string \<times> logval) list"

text \<open>
  Everything outside its own locals that a call can reach: the consensus state behind
  \<open>sdk.Context\<close>, the logger's output, and the codec, whose \<open>Decode\<close> calls are
  recorded (one entry per call, the argument bytes, in call order).
\<close>

record 'ctx world =
  sdk_ctx :: 'ctx
  logger :: "log_entry list"
  codec_calls :: "bytes list"

text \<open>
  \<open>ProposalHandler\<close> with the fields the two functions use. The supermajority
  predicate \<open>validateVoteExtensionsFn\<close>, the codec's \<open>Decode\<close> and the package function
  \<open>ve.ValidateOracleVoteExtension\<close> are collaborators defined outside these files, so
  they are parameters; the decoded vote extension \<open>'ve\<close> and the currency pair
  strategy \<open>'cps\<close> are opaque to the validator.
\<close>

record ('ctx, 've, 'cps) ProposalHandler =
  validateVoteExtensionsFn :: "'ctx \<Rightarrow> ExtendedCommitInfo \<Rightarrow> error option"
  Decode :: "bytes \<Rightarrow> error + 've"
  currencyPairStrategy :: 'cps
  ValidateOracleVoteExtension :: "'ctx \<Rightarrow> 've \<Rightarrow> 'cps \<Rightarrow> error option"

definition log_error :: "string \<Rightarrow> (string \<times> logval) list \<Rightarrow> 'ctx world \<Rightarrow> 'ctx world" where
  "log_error msg kvs w = w\<lparr>logger := logger w @ [(msg, kvs)]\<rparr>"

definition record_decode :: "bytes \<Rightarrow> 'ctx world \<Rightarrow> 'ctx world" where
  "record_decode bz w = w\<lparr>codec_calls := codec_calls w @ [bz]\<rparr>"

subsection \<open>ValidateExtendedCommitInfoPrepare\<close>

text \<open>The loop over \<open>extendedCommitInfo.Votes\<close> (lines 32 to 50).\<close>

fun prepare_votes ::
  "('ctx, 've, 'cps) ProposalHandler \<Rightarrow> 64 word \<Rightarrow> ExtendedVoteInfo list \<Rightarrow> 'ctx world
     \<Rightarrow> error option \<times> 'ctx world" where
  "prepare_votes h height [] w = (None, w)"
| "prepare_votes h height (vote # votes) w =
     (let address = Address (evi_Validator vote);
          w1 = record_decode (VoteExtension vote) w
      in case Decode h (VoteExtension vote) of
           Inl err \<Rightarrow> (Some err, w1)
         | Inr voteExt \<Rightarrow>
             (case ValidateOracleVoteExtension h (sdk_ctx w1) voteExt (currencyPairStrategy h) of
                Some err \<Rightarrow>
                  (Some err,
                   log_error ''failed to validate oracle vote extension''
                     [(''height'', LInt height), (''validator'', LAddr address), (''err'', LErr err)] w1)
              | None \<Rightarrow> prepare_votes h height votes w1))"

definition ValidateExtendedCommitInfoPrepare ::
  "('ctx, 've, 'cps) ProposalHandler \<Rightarrow> 64 word \<Rightarrow> ExtendedCommitInfo \<Rightarrow> 'ctx world
     \<Rightarrow> error option \<times> 'ctx world" where
  "ValidateExtendedCommitInfoPrepare h height extendedCommitInfo w =
     (case validateVoteExtensionsFn h (sdk_ctx w) extendedCommitInfo of
        Some err \<Rightarrow>
          (Some err,
           log_error ''failed to validate vote extensions; vote extensions may not comprise a supermajority''
             [(''height'', LInt height), (''err'', LErr err)] w)
      | None \<Rightarrow> prepare_votes h height (eci_Votes extendedCommitInfo) w)"

subsection \<open>ValidateExtendedCommitInfoProcess\<close>

text \<open>
  The request arrives as a pointer: \<open>None\<close> is the nil pointer. Reading a field through
  nil panics, which is the outcome \<open>Panic\<close>; a call that comes back is \<open>Returned\<close>.
\<close>

datatype 'a outcome = Panic | Returned 'a

text \<open>The map built from \<open>req.ProposedLastCommit.Votes\<close> (lines 77 to 80); a later
  vote of the same address overwrites an earlier one.\<close>

fun requestCommits_of :: "VoteInfo list \<Rightarrow> (bytes \<rightharpoonup> VoteInfo) \<Rightarrow> (bytes \<rightharpoonup> VoteInfo)" where
  "requestCommits_of [] m = m"
| "requestCommits_of (vote # votes) m =
     requestCommits_of votes (m(Address (vi_Validator vote) \<mapsto> vote))"

text \<open>The loop over \<open>extendedCommitInfo.Votes\<close> (lines 83 to 113).\<close>

fun process_votes ::
  "('ctx, 've, 'cps) ProposalHandler \<Rightarrow> RequestProcessProposal \<Rightarrow> (bytes \<rightharpoonup> VoteInfo)
     \<Rightarrow> ExtendedVoteInfo list \<Rightarrow> 'ctx world \<Rightarrow> error option \<times> 'ctx world" where
  "process_votes h req requestCommits [] w = (None, w)"
| "process_votes h req requestCommits (vote # votes) w =
     (let address = Address (evi_Validator vote)
      in case requestCommits address of
           None \<Rightarrow>
             (Some (Errorf ''no vote for validator in extended commit vote found in proposed last commit''),
              log_error ''no vote for validator in extended commit vote found in proposed last commit''
                [(''height'', LInt (Height req)), (''validator'', LRaw address)] w)
         | Some reqVote \<Rightarrow>
             (let w1 = record_decode (VoteExtension vote) w
              in case Decode h (VoteExtension vote) of
                   Inl err \<Rightarrow> (Some err, w1)
                 | Inr voteExt \<Rightarrow>
                     (case ValidateOracleVoteExtension h (sdk_ctx w1) voteExt (currencyPairStrategy h) of
                        Some err \<Rightarrow>
                          (Some err,
                           log_error ''failed to validate oracle vote extension''
                             [(''height'', LInt (Height req)), (''height'', LInt (Height req)),
                              (''validator'', LAddr address), (''err'', LErr err)] w1)
                      | None \<Rightarrow> process_votes h req requestCommits votes w1)))"

definition ValidateExtendedCommitInfoProcess ::
  "('ctx, 've, 'cps) ProposalHandler \<Rightarrow> RequestProcessProposal option \<Rightarrow> ExtendedCommitInfo
     \<Rightarrow> 'ctx world \<Rightarrow> error option outcome \<times> 'ctx world" where
  "ValidateExtendedCommitInfoProcess h req extendedCommitInfo w =
     (case validateVoteExtensionsFn h (sdk_ctx w) extendedCommitInfo of
        Some err \<Rightarrow>
          (case req of
             None \<Rightarrow> (Panic, w)
           | Some r \<Rightarrow>
               (Returned (Some err),
                log_error ''failed to validate vote extensions; vote extensions may not comprise a supermajority''
                  [(''height'', LInt (Height r)), (''err'', LErr err)] w))
      | None \<Rightarrow>
          (case req of
             None \<Rightarrow> (Panic, w)
           | Some r \<Rightarrow>
               (let requestCommits = requestCommits_of (ci_Votes (ProposedLastCommit r)) Map.empty;
                    res = process_votes h r requestCommits (eci_Votes extendedCommitInfo) w
                in (Returned (fst res), snd res))))"

subsection \<open>The two entry points over an explicit store\<close>

text \<open>
  The definitions above take the collaborators as functions of their arguments and the
  inputs as values. To state what a call may change, and when it may panic, the same two
  functions follow here over an explicit store. The store holds what the arguments refer
  to: the consensus state behind \<open>sdk.Context\<close>, the request object behind a
  \<open>*RequestProcessProposal\<close>, and the backing array of a votes slice, besides the
  logger's output and the record of \<open>Decode\<close> calls.
\<close>

type_synonym ptr = nat

record 'ctx store =
  consensus :: 'ctx
  requests :: "ptr \<Rightarrow> RequestProcessProposal"
  vote_arrays :: "ptr \<Rightarrow> nat \<Rightarrow> ExtendedVoteInfo"
  st_logger :: "log_entry list"
  st_codec_calls :: "bytes list"

text \<open>
  \<open>extendedCommitInfo\<close> is passed by value: its \<open>Votes\<close> field is a slice header, a
  reference to a backing array in the store and a length.
\<close>

record VotesSlice =
  sl_array :: ptr
  sl_len :: nat

record ExtendedCommitInfoArg =
  arg_Round :: "32 word"
  arg_Votes :: VotesSlice

text \<open>
  A step of the program takes the store and either panics or returns a value, leaving a
  new store. \<open>and_then\<close> runs a step and hands its value to the next one; a panic ends
  the sequence, as it unwinds a Go function that has no \<open>recover\<close>.
\<close>

type_synonym ('ctx, 'a) action = "'ctx store \<Rightarrow> 'a outcome \<times> 'ctx store"

definition yield :: "'a \<Rightarrow> ('ctx, 'a) action" where
  "yield a w = (Returned a, w)"

definition and_then :: "('ctx, 'a) action \<Rightarrow> ('a \<Rightarrow> ('ctx, 'b) action) \<Rightarrow> ('ctx, 'b) action" where
  "and_then f g w = (case f w of (Panic, w1) \<Rightarrow> (Panic, w1) | (Returned a, w1) \<Rightarrow> g a w1)"

text \<open>
  The handler once more. Every collaborator, the logger included, is an arbitrary step:
  it may read and write the whole store, and it may panic.
\<close>

record ('ctx, 've, 'cps) StoreHandler =
  st_validateVoteExtensionsFn :: "ExtendedCommitInfoArg \<Rightarrow> ('ctx, error option) action"
  st_Decode :: "bytes \<Rightarrow> ('ctx, error + 've) action"
  st_currencyPairStrategy :: 'cps
  st_ValidateOracleVoteExtension :: "'ve \<Rightarrow> 'cps \<Rightarrow> ('ctx, error option) action"
  st_logger_Error :: "string \<Rightarrow> (string \<times> logval) list \<Rightarrow> ('ctx, unit) action"

text \<open>The record of a \<open>Decode\<close> call, kept as in the first model.\<close>

definition note_decode :: "bytes \<Rightarrow> ('ctx, unit) action" where
  "note_decode bz w = (Returned (), w\<lparr>st_codec_calls := st_codec_calls w @ [bz]\<rparr>)"

text \<open>
  \<open>for _, vote := range extendedCommitInfo.Votes\<close>: the length is that of the slice
  header, element \<open>i\<close> is read from the backing array when iteration \<open>i\<close> starts, and a
  body that yields an error or panics ends the loop; \<open>Returned None\<close> from the body is
  the end of an iteration that did not return.
\<close>

fun range_votes ::
  "(ExtendedVoteInfo \<Rightarrow> ('ctx, error option) action) \<Rightarrow> ptr \<Rightarrow> nat \<Rightarrow> nat
     \<Rightarrow> ('ctx, error option) action" where
  "range_votes body arr i 0 w = (Returned None, w)"
| "range_votes body arr i (Suc n) w =
     (case body (vote_arrays w arr i) w of
        (Returned None, w1) \<Rightarrow> range_votes body arr (Suc i) n w1
      | (stopped, w1) \<Rightarrow> (stopped, w1))"

text \<open>The body of the loop of \<open>ValidateExtendedCommitInfoPrepare\<close> (lines 33 to 49).\<close>

definition prepare_vote_st ::
  "('ctx, 've, 'cps) StoreHandler \<Rightarrow> 64 word \<Rightarrow> ExtendedVoteInfo \<Rightarrow> ('ctx, error option) action" where
  "prepare_vote_st h height vote =
     (let address = Address (evi_Validator vote)
      in and_then (note_decode (VoteExtension vote)) (\<lambda>noted.
         and_then (st_Decode h (VoteExtension vote)) (\<lambda>decoded.
           case decoded of
             Inl err \<Rightarrow> yield (Some err)
           | Inr voteExt \<Rightarrow>
               and_then (st_ValidateOracleVoteExtension h voteExt (st_currencyPairStrategy h)) (\<lambda>verdict.
                 case verdict of
                   Some err \<Rightarrow>
                     and_then
                       (st_logger_Error h ''failed to validate oracle vote extension''
                          [(''height'', LInt height), (''validator'', LAddr address), (''err'', LErr err)])
                       (\<lambda>logged. yield (Some err))
                 | None \<Rightarrow> yield None))))"

definition ValidateExtendedCommitInfoPrepare_st ::
  "('ctx, 've, 'cps) StoreHandler \<Rightarrow> 64 word \<Rightarrow> ExtendedCommitInfoArg \<Rightarrow> ('ctx, error option) action" where
  "ValidateExtendedCommitInfoPrepare_st h height extendedCommitInfo =
     and_then (st_validateVoteExtensionsFn h extendedCommitInfo) (\<lambda>verdict.
       case verdict of
         Some err \<Rightarrow>
           and_then
             (st_logger_Error h
                ''failed to validate vote extensions; vote extensions may not comprise a supermajority''
                [(''height'', LInt height), (''err'', LErr err)])
             (\<lambda>logged. yield (Some err))
       | None \<Rightarrow>
           range_votes (prepare_vote_st h height) (sl_array (arg_Votes extendedCommitInfo)) 0
             (sl_len (arg_Votes extendedCommitInfo)))"

text \<open>
  The body of the loop of \<open>ValidateExtendedCommitInfoProcess\<close> (lines 84 to 112);
  \<open>req.Height\<close> is read through the pointer when the log entry is built.
\<close>

definition process_vote_st ::
  "('ctx, 've, 'cps) StoreHandler \<Rightarrow> ptr \<Rightarrow> (bytes \<rightharpoonup> VoteInfo) \<Rightarrow> ExtendedVoteInfo
     \<Rightarrow> ('ctx, error option) action" where
  "process_vote_st h req requestCommits vote =
     (let address = Address (evi_Validator vote)
      in case requestCommits address of
           None \<Rightarrow>
             and_then
               (\<lambda>w. st_logger_Error h
                  ''no vote for validator in extended commit vote found in proposed last commit''
                  [(''height'', LInt (Height (requests w req))), (''validator'', LRaw address)] w)
               (\<lambda>logged. yield (Some (Errorf
                  ''no vote for validator in extended commit vote found in proposed last commit'')))
         | Some reqVote \<Rightarrow>
             and_then (note_decode (VoteExtension vote)) (\<lambda>noted.
             and_then (st_Decode h (VoteExtension vote)) (\<lambda>decoded.
               case decoded of
                 Inl err \<Rightarrow> yield (Some err)
               | Inr voteExt \<Rightarrow>
                   and_then (st_ValidateOracleVoteExtension h voteExt (st_currencyPairStrategy h)) (\<lambda>verdict.
                     case verdict of
                       Some err \<Rightarrow>
                         and_then
                           (\<lambda>w. st_logger_Error h ''failed to validate oracle vote extension''
                              [(''height'', LInt (Height (requests w req))),
                               (''height'', LInt (Height (requests w req))),
                               (''validator'', LAddr address), (''err'', LErr err)] w)
                           (\<lambda>logged. yield (Some err))
                     | None \<Rightarrow> yield None))))"

text \<open>
  \<open>req\<close> is a pointer, \<open>None\<close> for nil. After the supermajority predicate has returned,
  both branches read through \<open>req\<close> first (\<open>req.Height\<close> for the log entry,
  \<open>req.ProposedLastCommit.Votes\<close> for the map), so a nil \<open>req\<close> panics there.
\<close>

definition ValidateExtendedCommitInfoProcess_st ::
  "('ctx, 've, 'cps) StoreHandler \<Rightarrow> ptr option \<Rightarrow> ExtendedCommitInfoArg \<Rightarrow> ('ctx, error option) action" where
  "ValidateExtendedCommitInfoProcess_st h req extendedCommitInfo =
     and_then (st_validateVoteExtensionsFn h extendedCommitInfo) (\<lambda>verdict.
       case req of
         None \<Rightarrow> (\<lambda>w. (Panic, w))
       | Some p \<Rightarrow>
           (case verdict of
              Some err \<Rightarrow>
                and_then
                  (\<lambda>w. st_logger_Error h
                     ''failed to validate vote extensions; vote extensions may not comprise a supermajority''
                     [(''height'', LInt (Height (requests w p))), (''err'', LErr err)] w)
                  (\<lambda>logged. yield (Some err))
            | None \<Rightarrow>
                (\<lambda>w. range_votes
                   (process_vote_st h p
                      (requestCommits_of (ci_Votes (ProposedLastCommit (requests w p))) Map.empty))
                   (sl_array (arg_Votes extendedCommitInfo)) 0
                   (sl_len (arg_Votes extendedCommitInfo)) w)))"

section \<open>Market map tickers\<close>

text \<open>
  \<open>mmtypes.Ticker\<close> with the fields the files use: the test helper builds tickers from
  \<open>CurrencyPair\<close>, \<open>Decimals\<close> and \<open>MinProviderCount\<close>, the Uniswap fetcher reads
  \<open>Metadata_JSON\<close>. A ticker is a comparable struct and serves as a map key.
\<close>

record CurrencyPair =
  Base :: string
  Quote :: string

record Ticker =
  Pair :: CurrencyPair
  Decimals :: "64 word"
  MinProviderCount :: "64 word"
  Metadata_JSON :: string

section \<open>The combination step of the price aggregation engine\<close>

text \<open>
  Modelled from the spec: the aggregation engine (\<open>Aggregate\<close>, package pkg/math/oracle)
  is not among the source files; only its test helper is. The definitions below follow
  section 4.3, step 2 (Combination), of the specification, for one ticker and the
  candidate prices already resolved for it. Candidates live in the higher-precision
  intermediate type (rationals, in the ticker's scaled units); the result is an integer
  ScaledPrice or no price.

  The median of the candidates: the middle value of the sorted candidates, for an even
  count the average of the two middle values. The specification does not say what the
  median of no candidates is; here it is no value.
\<close>

definition median :: "rat list \<Rightarrow> rat option" where
  "median candidates =
     (let sorted_candidates = sort candidates; n = length sorted_candidates
      in if n = 0 then None
         else if even n
           then Some ((sorted_candidates ! (n div 2 - 1) + sorted_candidates ! (n div 2)) / 2)
           else Some (sorted_candidates ! (n div 2)))"

text \<open>
  Modelled from the spec: rounding the intermediate value to an integer ScaledPrice,
  half away from zero (section 4.3, step 2, last sentence).
\<close>

definition round_half_away :: "rat \<Rightarrow> int" where
  "round_half_away q = (if 0 \<le> q then \<lfloor>q + 1 / 2\<rfloor> else \<lceil>q - 1 / 2\<rceil>)"

text \<open>
  Modelled from the spec: the combination of one ticker's candidates. Fewer candidates
  than \<open>minProviderCount\<close> give no price; otherwise the price is the rounded median.
\<close>

definition Combination :: "Ticker \<Rightarrow> rat list \<Rightarrow> int option" where
  "Combination ticker candidates =
     (if length candidates < unat (MinProviderCount ticker) then None
      else map_option round_half_away (median candidates))"

section \<open>The Uniswap V3 price fetcher (package uniswapv3)\<close>

subsection \<open>Data\<close>

text \<open>
  \<open>PoolConfig\<close> is declared in another file of the package; \<open>Fetch\<close> reads only its
  \<open>Address\<close>.
\<close>

record PoolConfig =
  PoolAddress :: string
  BaseDecimals :: "64 word"
  QuoteDecimals :: "64 word"
  Invert :: bool

text \<open>The error codes of package providers/types that \<open>Fetch\<close> uses.\<close>

datatype ErrorCode = ErrorUnknown | ErrorAPIGeneral | ErrorFailedToDecode | ErrorFailedToParsePrice

datatype ErrorWithCode = NewErrorWithCode error ErrorCode

datatype UnresolvedResult = UnresolvedResult ErrorWithCode

text \<open>\<open>types.NewPriceResult(intPrice, time.Now())\<close>; \<open>intPrice\<close> is a \<open>*big.Int\<close>, which
  \<open>big.Float.Int\<close> leaves nil for an infinite float.\<close>

record PriceResult =
  pr_Value :: "int option"
  pr_Timestamp :: nat

record PriceResponse =
  Resolved :: "Ticker \<rightharpoonup> PriceResult"
  UnResolved :: "Ticker \<rightharpoonup> UnresolvedResult"

text \<open>
  The \<open>Result\<close> field of an \<open>rpc.BatchElem\<close> is an \<open>interface{}\<close>: a \<open>*string\<close> (nil, or
  pointing to a string), or anything else.
\<close>

datatype rpc_result = ResString "string option" | ResOther

record BatchElem =
  Method :: string
  Args_to :: string
  Args_data :: bytes
  Args_block :: string
  Result :: rpc_result
  Error :: "error option"

text \<open>
  \<open>EVMClient.BatchCallContext\<close> returns an error for the batch as a whole and writes
  into the elements of the slice it is given; the slice keeps its length. \<open>batch_reply\<close>
  is the element the client leaves at one index.
\<close>

record EVMClient =
  batch_err :: "BatchElem list \<Rightarrow> error option"
  batch_reply :: "BatchElem list \<Rightarrow> nat \<Rightarrow> BatchElem"

definition BatchCallContext :: "EVMClient \<Rightarrow> BatchElem list \<Rightarrow> error option \<times> BatchElem list" where
  "BatchCallContext c batchElems =
     (batch_err c batchElems, map (batch_reply c batchElems) [0..<length batchElems])"

text \<open>
  The fetcher's fixed parts. \<open>json.Unmarshal\<close> into a zero \<open>PoolConfig\<close>,
  \<open>PoolConfig.ValidateBasic\<close>, \<open>hexutil.Decode\<close>, the ABI's unpacking of the slot0
  outputs (\<open>UnpackValues\<close> and the conversion of \<open>out[0]\<close>, the sqrtPriceX96, to a
  \<open>*big.Int\<close>), the price arithmetic of the package's other files
  (\<open>ScalePrice(ticker, pool, ConvertSquareRootX96Price(sqrtPriceX96)).Int(nil)\<close>,
  computed in \<open>big.Float\<close>) and the clock are defined outside this file and are parameters.
\<close>

record UniswapV3PriceFetcher =
  client :: EVMClient
  payload :: bytes
  json_Unmarshal :: "string \<Rightarrow> PoolConfig \<times> error option"
  ValidateBasic :: "PoolConfig \<Rightarrow> error option"
  hexutil_Decode :: "string \<Rightarrow> error + bytes"
  slot0_Unpack :: "bytes \<Rightarrow> error + int"
  ScaledIntPrice :: "Ticker \<Rightarrow> PoolConfig \<Rightarrow> int \<Rightarrow> int option"
  time_Now :: "nat \<Rightarrow> nat"

text \<open>
  What a call changes: the pool cache, the logger's output and the latency metric; and,
  recorded for the proofs, the metadata strings handed to \<open>json.Unmarshal\<close>, one entry
  per call.
\<close>

datatype zap_field = ZTicker Ticker | ZError error

record fetcher_state =
  poolCache :: "Ticker \<rightharpoonup> PoolConfig"
  unmarshal_calls :: "string list"
  zap_log :: "(string \<times> zap_field list) list"
  latency_observations :: nat

definition zap_error :: "string \<Rightarrow> zap_field list \<Rightarrow> fetcher_state \<Rightarrow> fetcher_state" where
  "zap_error msg zfields s = s\<lparr>zap_log := zap_log s @ [(msg, zfields)]\<rparr>"

definition observe_latency :: "fetcher_state \<Rightarrow> fetcher_state" where
  "observe_latency s = s\<lparr>latency_observations := Suc (latency_observations s)\<rparr>"

subsection \<open>GetPool\<close>

definition GetPool ::
  "UniswapV3PriceFetcher \<Rightarrow> Ticker \<Rightarrow> fetcher_state \<Rightarrow> (PoolConfig \<times> error option) \<times> fetcher_state" where
  "GetPool u ticker s =
     (case poolCache s ticker of
        Some pool \<Rightarrow> ((pool, None), s)
      | None \<Rightarrow>
          (let s1 = s\<lparr>unmarshal_calls := unmarshal_calls s @ [Metadata_JSON ticker]\<rparr>;
               cfg = fst (json_Unmarshal u (Metadata_JSON ticker))
           in case snd (json_Unmarshal u (Metadata_JSON ticker)) of
                Some err \<Rightarrow> ((cfg, Some (Wrapf ''failed to unmarshal pool config on ticker'' err)), s1)
              | None \<Rightarrow>
                  (case ValidateBasic u cfg of
                     Some err \<Rightarrow> ((cfg, Some (Wrapf ''invalid ticker pool config'' err)), s1)
                   | None \<Rightarrow> ((cfg, None), s1\<lparr>poolCache := (poolCache s1)(ticker \<mapsto> cfg)\<rparr>))))"

subsection \<open>ParseSqrtPriceX96\<close>

definition ParseSqrtPriceX96 :: "UniswapV3PriceFetcher \<Rightarrow> rpc_result \<Rightarrow> error + int" where
  "ParseSqrtPriceX96 u result =
     (case result of
        ResOther \<Rightarrow> Inl (Errorf ''expected result to be a string, got %T'')
      | ResString None \<Rightarrow> Inl (Errorf ''result is nil'')
      | ResString (Some r) \<Rightarrow>
          (case hexutil_Decode u r of
             Inl err \<Rightarrow> Inl (Wrapf ''failed to decode hex result'' err)
           | Inr bz \<Rightarrow>
               (case slot0_Unpack u bz of
                  Inl err \<Rightarrow> Inl (Wrapf ''failed to unpack values'' err)
                | Inr sqrtPriceX96 \<Rightarrow> Inr sqrtPriceX96)))"

subsection \<open>The price responses\<close>

text \<open>
  Modelled from the spec: \<open>types.NewPriceResponse\<close> and \<open>types.NewPriceResponseWithErr\<close>
  (package providers/types) are not among the source files, and the specification, which
  leaves the fetchers out of scope, has no sentence on them. The model follows their
  names and their use in \<open>Fetch\<close>: the first pairs the two maps, the second resolves
  nothing and maps every given ticker to the given error.
\<close>

definition NewPriceResponse ::
  "(Ticker \<rightharpoonup> PriceResult) \<Rightarrow> (Ticker \<rightharpoonup> UnresolvedResult) \<Rightarrow> PriceResponse" where
  "NewPriceResponse resolved unResolved = \<lparr>Resolved = resolved, UnResolved = unResolved\<rparr>"

text \<open>
  Modelled from the spec: the loop of \<open>types.NewPriceResponseWithErr\<close> over the given
  tickers (not among the source files), each ticker stored under the given error.
\<close>

fun unresolve_all ::
  "Ticker list \<Rightarrow> ErrorWithCode \<Rightarrow> (Ticker \<rightharpoonup> UnresolvedResult) \<Rightarrow> (Ticker \<rightharpoonup> UnresolvedResult)" where
  "unresolve_all [] err m = m"
| "unresolve_all (ticker # tickers) err m =
     unresolve_all tickers err (m(ticker \<mapsto> UnresolvedResult err))"

text \<open>
  Modelled from the spec: \<open>types.NewPriceResponseWithErr(tickers, err)\<close> (not among the
  source files): no resolved price, and every given ticker unresolved with \<open>err\<close>.
\<close>

definition NewPriceResponseWithErr :: "Ticker list \<Rightarrow> ErrorWithCode \<Rightarrow> PriceResponse" where
  "NewPriceResponseWithErr tickers err =
     \<lparr>Resolved = Map.empty, UnResolved = unresolve_all tickers err Map.empty\<rparr>"

subsection \<open>Fetch\<close>

text \<open>
  The first loop (lines 123 to 155): one batch element and one pool per ticker, in
  order; the first \<open>GetPool\<close> error ends it.
\<close>

fun build_batch ::
  "UniswapV3PriceFetcher \<Rightarrow> Ticker list \<Rightarrow> fetcher_state
     \<Rightarrow> (error + BatchElem list \<times> PoolConfig list) \<times> fetcher_state" where
  "build_batch u [] s = (Inr ([], []), s)"
| "build_batch u (ticker # tickers) s =
     (case GetPool u ticker s of
        ((pool, Some err), s1) \<Rightarrow>
          (Inl err, zap_error ''failed to get pool for ticker'' [ZTicker ticker, ZError err] s1)
      | ((pool, None), s1) \<Rightarrow>
          (let elem = \<lparr>Method = ''eth_call'', Args_to = PoolAddress pool, Args_data = payload u,
                        Args_block = ''latest'', Result = ResString (Some []), Error = None\<rparr>
           in case build_batch u tickers s1 of
                (Inl err, s2) \<Rightarrow> (Inl err, s2)
              | (Inr (batchElems, pools), s2) \<Rightarrow> (Inr (elem # batchElems, pool # pools), s2)))"

text \<open>
  The second loop (lines 171 to 216) over ticker \<open>i\<close>, \<open>batchElems[i]\<close> and \<open>pools[i]\<close>;
  the three slices have the same length.
\<close>

fun parse_results ::
  "UniswapV3PriceFetcher \<Rightarrow> nat \<Rightarrow> (Ticker \<times> BatchElem \<times> PoolConfig) list
     \<Rightarrow> (Ticker \<rightharpoonup> PriceResult) \<Rightarrow> (Ticker \<rightharpoonup> UnresolvedResult) \<Rightarrow> fetcher_state
     \<Rightarrow> (Ticker \<rightharpoonup> PriceResult) \<times> (Ticker \<rightharpoonup> UnresolvedResult) \<times> fetcher_state" where
  "parse_results u i [] resolved unResolved s = (resolved, unResolved, s)"
| "parse_results u i ((ticker, result, pool) # rest) resolved unResolved s =
     (case Error result of
        Some err \<Rightarrow>
          parse_results u (Suc i) rest resolved
            (unResolved(ticker \<mapsto> UnresolvedResult (NewErrorWithCode err ErrorUnknown)))
            (zap_error ''failed to batch call to ethereum network for ticker''
               [ZTicker ticker, ZError err] s)
      | None \<Rightarrow>
          (case ParseSqrtPriceX96 u (Result result) of
             Inl err \<Rightarrow>
               parse_results u (Suc i) rest resolved
                 (unResolved(ticker \<mapsto> UnresolvedResult (NewErrorWithCode err ErrorFailedToParsePrice)))
                 (zap_error ''failed to parse sqrt price x96'' [ZTicker ticker, ZError err] s)
           | Inr sqrtPriceX96 \<Rightarrow>
               parse_results u (Suc i) rest
                 (resolved(ticker \<mapsto> \<lparr>pr_Value = ScaledIntPrice u ticker pool sqrtPriceX96,
                                        pr_Timestamp = time_Now u i\<rparr>))
                 unResolved s))"

definition Fetch ::
  "UniswapV3PriceFetcher \<Rightarrow> Ticker list \<Rightarrow> fetcher_state \<Rightarrow> PriceResponse \<times> fetcher_state" where
  "Fetch u tickers s =
     (case build_batch u tickers s of
        (Inl err, s1) \<Rightarrow>
          (NewPriceResponseWithErr tickers
             (NewErrorWithCode (Wrapf ''failed to get pool'' err) ErrorFailedToDecode),
           observe_latency s1)
      | (Inr (batchElems, pools), s1) \<Rightarrow>
          (case BatchCallContext (client u) batchElems of
             (Some err, replied) \<Rightarrow>
               (NewPriceResponseWithErr tickers (NewErrorWithCode err ErrorAPIGeneral),
                observe_latency
                  (zap_error ''failed to batch call to ethereum network for all tickers''
                     [ZError err] s1))
           | (None, replied) \<Rightarrow>
               (case parse_results u 0 (zip tickers (zip replied pools)) Map.empty Map.empty s1 of
                  (resolved, unResolved, s2) \<Rightarrow>
                    (NewPriceResponse resolved unResolved, observe_latency s2))))"

section \<open>Notions used by the statements, and concrete inputs\<close>

text \<open>
  What one vote yields when the loop reaches it: the codec's error, else the verdict of
  \<open>ValidateOracleVoteExtension\<close> on the decoded vote (\<open>None\<close> when the vote passes).
\<close>

definition vote_error :: "('ctx, 've, 'cps) ProposalHandler \<Rightarrow> 'ctx \<Rightarrow> ExtendedVoteInfo \<Rightarrow> error option" where
  "vote_error h ctx vote =
     (case Decode h (VoteExtension vote) of
        Inl err \<Rightarrow> Some err
      | Inr voteExt \<Rightarrow> ValidateOracleVoteExtension h ctx voteExt (currencyPairStrategy h))"

text \<open>
  A small handler for concrete runs: the supermajority predicate wants at least two
  votes, the codec rejects empty bytes and decodes other bytes to their length, and the
  vote validator rejects a decoded vote above 2.
\<close>

definition example_handler :: "(unit, nat, unit) ProposalHandler" where
  "example_handler =
     \<lparr>validateVoteExtensionsFn =
        (\<lambda>ctx eci. if length (eci_Votes eci) < 2 then Some (Errorf ''insufficient voting power'') else None),
      Decode = (\<lambda>bz. if bz = [] then Inl (Errorf ''empty vote extension'') else Inr (length bz)),
      currencyPairStrategy = (),
      ValidateOracleVoteExtension =
        (\<lambda>ctx voteExt cps. if 2 < voteExt then Some (Errorf ''too many prices'') else None)\<rparr>"

definition example_vote :: "bytes \<Rightarrow> bytes \<Rightarrow> ExtendedVoteInfo" where
  "example_vote addr ext =
     \<lparr>evi_Validator = \<lparr>Address = addr, Power = 1\<rparr>, VoteExtension = ext,
      ExtensionSignature = [], evi_BlockIdFlag = 2\<rparr>"

definition example_commit :: "ExtendedVoteInfo list \<Rightarrow> ExtendedCommitInfo" where
  "example_commit votes = \<lparr>eci_Round = 0, eci_Votes = votes\<rparr>"

definition example_request :: "bytes list \<Rightarrow> RequestProcessProposal" where
  "example_request addrs =
     \<lparr>Txs = [],
      ProposedLastCommit =
        \<lparr>ci_Round = 0,
         ci_Votes = map (\<lambda>a. \<lparr>vi_Validator = \<lparr>Address = a, Power = 1\<rparr>, vi_BlockIdFlag = 2\<rparr>) addrs\<rparr>,
      Hash = [], Height = 7, ProposerAddress = []\<rparr>"

definition example_world :: "unit world" where
  "example_world = \<lparr>sdk_ctx = (), logger = [], codec_calls = []\<rparr>"

text \<open>
  Notions for the statements about the store. \<open>observed\<close> is the part of the store a
  call is given to read: the consensus state and the objects its arguments refer to. A
  step is \<open>read_only\<close> when it leaves that part as it is and its outcome is a function
  of that part alone; \<open>never_panics\<close> when it always returns. \<open>commit_of\<close> and
  \<open>world_of\<close> read a value of the first model off the store, and \<open>lift_handler\<close>
  turns collaborators given as functions into steps.
\<close>

definition observed ::
  "'ctx store \<Rightarrow> 'ctx \<times> (ptr \<Rightarrow> RequestProcessProposal) \<times> (ptr \<Rightarrow> nat \<Rightarrow> ExtendedVoteInfo)" where
  "observed w = (consensus w, requests w, vote_arrays w)"

definition read_only :: "('ctx, 'a) action \<Rightarrow> bool" where
  "read_only f \<longleftrightarrow>
     (\<forall>w. observed (snd (f w)) = observed w) \<and>
     (\<forall>w1 w2. observed w1 = observed w2 \<longrightarrow> fst (f w1) = fst (f w2))"

definition never_panics :: "('ctx, 'a) action \<Rightarrow> bool" where
  "never_panics f \<longleftrightarrow> (\<forall>w. fst (f w) \<noteq> Panic)"

definition read_only_collaborators :: "('ctx, 've, 'cps) StoreHandler \<Rightarrow> bool" where
  "read_only_collaborators h \<longleftrightarrow>
     (\<forall>eci. read_only (st_validateVoteExtensionsFn h eci)) \<and>
     (\<forall>bz. read_only (st_Decode h bz)) \<and>
     (\<forall>voteExt cps. read_only (st_ValidateOracleVoteExtension h voteExt cps)) \<and>
     (\<forall>msg kvs. read_only (st_logger_Error h msg kvs))"

definition returning_collaborators :: "('ctx, 've, 'cps) StoreHandler \<Rightarrow> bool" where
  "returning_collaborators h \<longleftrightarrow>
     (\<forall>eci. never_panics (st_validateVoteExtensionsFn h eci)) \<and>
     (\<forall>bz. never_panics (st_Decode h bz)) \<and>
     (\<forall>voteExt cps. never_panics (st_ValidateOracleVoteExtension h voteExt cps)) \<and>
     (\<forall>msg kvs. never_panics (st_logger_Error h msg kvs))"

definition commit_of :: "'ctx store \<Rightarrow> ExtendedCommitInfoArg \<Rightarrow> ExtendedCommitInfo" where
  "commit_of w eci =
     \<lparr>eci_Round = arg_Round eci,
      eci_Votes = map (vote_arrays w (sl_array (arg_Votes eci))) [0..<sl_len (arg_Votes eci)]\<rparr>"

definition world_of :: "'ctx store \<Rightarrow> 'ctx world" where
  "world_of w = \<lparr>sdk_ctx = consensus w, logger = st_logger w, codec_calls = st_codec_calls w\<rparr>"

definition lift_handler :: "('ctx, 've, 'cps) ProposalHandler \<Rightarrow> ('ctx, 've, 'cps) StoreHandler" where
  "lift_handler h =
     \<lparr>st_validateVoteExtensionsFn =
        (\<lambda>eci w. (Returned (validateVoteExtensionsFn h (consensus w) (commit_of w eci)), w)),
      st_Decode = (\<lambda>bz w. (Returned (Decode h bz), w)),
      st_currencyPairStrategy = currencyPairStrategy h,
      st_ValidateOracleVoteExtension =
        (\<lambda>voteExt cps w. (Returned (ValidateOracleVoteExtension h (consensus w) voteExt cps), w)),
      st_logger_Error = (\<lambda>msg kvs w. (Returned (), w\<lparr>st_logger := st_logger w @ [(msg, kvs)]\<rparr>))\<rparr>"

text \<open>
  A store for concrete runs (two votes, the second with three price bytes), a commit
  info of \<open>n\<close> votes over it, and a handler whose codec panics on more than two bytes.
\<close>

definition example_store :: "unit store" where
  "example_store =
     \<lparr>consensus = (),
      requests = (\<lambda>p. example_request [[1], [2]]),
      vote_arrays = (\<lambda>p i. if i = 0 then example_vote [1] [5] else example_vote [2] [6, 7, 8]),
      st_logger = [], st_codec_calls = []\<rparr>"

definition example_commit_arg :: "nat \<Rightarrow> ExtendedCommitInfoArg" where
  "example_commit_arg n = \<lparr>arg_Round = 0, arg_Votes = \<lparr>sl_array = 0, sl_len = n\<rparr>\<rparr>"

definition example_panicking_handler :: "(unit, nat, unit) StoreHandler" where
  "example_panicking_handler =
     (lift_handler example_handler)
       \<lparr>st_Decode := (\<lambda>bz w. if 2 < length bz then (Panic, w) else (Returned (Inr (length bz)), w))\<rparr>"

text \<open>
  Notions for the statements about the Uniswap fetcher: the state after a sequence of
  \<open>GetPool\<close> calls; \<open>GetPool\<close> returning an error for a ticker at a state; the batch
  elements \<open>Fetch\<close> hands to the client when every \<open>GetPool\<close> succeeds; and a replied
  batch element from which the second loop resolves a price (no RPC error, and
  \<open>ParseSqrtPriceX96\<close> succeeds).
\<close>

definition GetPool_calls :: "UniswapV3PriceFetcher \<Rightarrow> Ticker list \<Rightarrow> fetcher_state \<Rightarrow> fetcher_state" where
  "GetPool_calls u tickers s = fold (\<lambda>ticker s'. snd (GetPool u ticker s')) tickers s"

definition pool_fails :: "UniswapV3PriceFetcher \<Rightarrow> fetcher_state \<Rightarrow> Ticker \<Rightarrow> bool" where
  "pool_fails u s ticker \<longleftrightarrow> snd (fst (GetPool u ticker s)) \<noteq> None"

definition batch_elems :: "UniswapV3PriceFetcher \<Rightarrow> Ticker list \<Rightarrow> fetcher_state \<Rightarrow> BatchElem list" where
  "batch_elems u tickers s =
     (case fst (build_batch u tickers s) of Inl err \<Rightarrow> [] | Inr (batchElems, pools) \<Rightarrow> batchElems)"

definition elem_resolves :: "UniswapV3PriceFetcher \<Rightarrow> BatchElem \<Rightarrow> bool" where
  "elem_resolves u result \<longleftrightarrow>
     Error result = None \<and> (case ParseSqrtPriceX96 u (Result result) of Inl err \<Rightarrow> False | Inr p \<Rightarrow> True)"

text \<open>
  A small fetcher for concrete runs: empty metadata does not unmarshal, the pool address
  \<open>0x\<close> does not validate, the client refuses batches of more than two elements and
  otherwise reports an RPC error for the first element and the result \<open>0x01\<close> for the
  others.
\<close>

definition example_fetcher :: UniswapV3PriceFetcher where
  "example_fetcher =
     \<lparr>client = \<lparr>batch_err = (\<lambda>elems. if length elems > 2 then Some (Errorf ''batch too large'') else None),
                 batch_reply = (\<lambda>elems i.
                    if i = 0 then (elems ! i)\<lparr>Error := Some (Errorf ''execution reverted'')\<rparr>
                    else (elems ! i)\<lparr>Result := ResString (Some ''0x01'')\<rparr>)\<rparr>,
      payload = [56, 80, 199, 189],
      json_Unmarshal = (\<lambda>js. if js = [] then (\<lparr>PoolAddress = [], BaseDecimals = 0, QuoteDecimals = 0, Invert = False\<rparr>,
                                              Some (Errorf ''unexpected end of JSON input''))
                              else (\<lparr>PoolAddress = js, BaseDecimals = 18, QuoteDecimals = 6, Invert = False\<rparr>, None)),
      ValidateBasic = (\<lambda>cfg. if PoolAddress cfg = ''0x'' then Some (Errorf ''pool address is not valid'') else None),
      hexutil_Decode = (\<lambda>r. if r = ''0x01'' then Inr [1] else Inl (Errorf ''invalid hex string'')),
      slot0_Unpack = (\<lambda>bz. if length bz = 1 then Inr 79228162514264337593543950336 else Inl (Errorf ''abi: cannot unmarshal'')),
      ScaledIntPrice = (\<lambda>ticker pool sqrtPriceX96. Some (sqrtPriceX96 div 79228162514264337593543950336)),
      time_Now = (\<lambda>i. 1000 + i)\<rparr>"

definition example_ticker :: "string \<Rightarrow> string \<Rightarrow> Ticker" where
  "example_ticker base js =
     \<lparr>Pair = \<lparr>Base = base, Quote = ''USD''\<rparr>, Decimals = 8, MinProviderCount = 1, Metadata_JSON = js\<rparr>"

definition example_state :: fetcher_state where
  "example_state = \<lparr>poolCache = Map.empty, unmarshal_calls = [], zap_log = [], latency_observations = 0\<rparr>"

text \<open>A ticker with \<open>minProviderCount = 3\<close>, as \<open>BTC_USD\<close> in the test helper.\<close>

definition example_btc_usd :: Ticker where
  "example_btc_usd =
     \<lparr>Pair = \<lparr>Base = ''BTC'', Quote = ''USD''\<rparr>, Decimals = 8, MinProviderCount = 3, Metadata_JSON = []\<rparr>"

section \<open>Properties of the extended commit info validator\<close>

subsection \<open>Auxiliary facts\<close>

lemmas example_defs = example_handler_def example_vote_def example_commit_def example_request_def
  example_world_def ValidateExtendedCommitInfoPrepare_def ValidateExtendedCommitInfoProcess_def
  record_decode_def log_error_def Let_def

lemma world_effects [simp]:
  "sdk_ctx (record_decode b w) = sdk_ctx w"
  "codec_calls (record_decode b w) = codec_calls w @ [b]"
  "logger (record_decode b w) = logger w"
  "sdk_ctx (log_error msg kvs w) = sdk_ctx w"
  "codec_calls (log_error msg kvs w) = codec_calls w"
  "logger (log_error msg kvs w) = logger w @ [(msg, kvs)]"
  by (simp_all add: record_decode_def log_error_def)

lemma prepare_votes_nil_iff:
  "fst (prepare_votes h ht vs w) = None \<longleftrightarrow> (\<forall>v\<in>set vs. vote_error h (sdk_ctx w) v = None)"
  by (induction vs arbitrary: w) (auto simp: Let_def vote_error_def split: sum.splits option.splits)

lemma prepare_votes_all_ok:
  "\<forall>v\<in>set vs. vote_error h (sdk_ctx w) v = None \<Longrightarrow>
   codec_calls (snd (prepare_votes h ht vs w)) = codec_calls w @ map VoteExtension vs"
  by (induction vs arbitrary: w) (auto simp: Let_def vote_error_def split: sum.splits option.splits)

lemma prepare_votes_first_failure:
  "\<forall>v\<in>set pre. vote_error h (sdk_ctx w) v = None \<Longrightarrow> vote_error h (sdk_ctx w) vote = Some err \<Longrightarrow>
   fst (prepare_votes h ht (pre @ vote # post) w) = Some err \<and>
   codec_calls (snd (prepare_votes h ht (pre @ vote # post) w)) = codec_calls w @ map VoteExtension (pre @ [vote])"
  by (induction pre arbitrary: w) (auto simp: Let_def vote_error_def split: sum.splits option.splits)

lemma prepare_votes_calls:
  "\<exists>cs. codec_calls (snd (prepare_votes h ht vs w)) = codec_calls w @ cs \<and>
        (\<forall>b\<in>set cs. \<forall>e. Decode h b = Inl e \<longrightarrow>
           fst (prepare_votes h ht vs w) = Some e \<and> last cs = b)"
proof (induction vs arbitrary: w)
  case Nil
  show ?case by simp
next
  case (Cons vote votes)
  show ?case
  proof (cases "Decode h (VoteExtension vote)")
    case (Inl err)
    then show ?thesis by (simp add: Let_def)
  next
    case (Inr voteExt)
    show ?thesis
    proof (cases "ValidateOracleVoteExtension h (sdk_ctx w) voteExt (currencyPairStrategy h)")
      case (Some err)
      with Inr show ?thesis by (simp add: Let_def)
    next
      case None
      from Cons.IH [of "record_decode (VoteExtension vote) w"]
      obtain cs where cs: "codec_calls (snd (prepare_votes h ht votes (record_decode (VoteExtension vote) w)))
            = codec_calls (record_decode (VoteExtension vote) w) @ cs"
        and fail: "\<forall>b\<in>set cs. \<forall>e. Decode h b = Inl e \<longrightarrow>
           fst (prepare_votes h ht votes (record_decode (VoteExtension vote) w)) = Some e \<and> last cs = b"
        by blast
      have "codec_calls (snd (prepare_votes h ht (vote # votes) w)) = codec_calls w @ (VoteExtension vote # cs)"
        using Inr None cs by (simp add: Let_def)
      moreover have "\<forall>b\<in>set (VoteExtension vote # cs). \<forall>e. Decode h b = Inl e \<longrightarrow>
           fst (prepare_votes h ht (vote # votes) w) = Some e \<and> last (VoteExtension vote # cs) = b"
        using Inr None fail by (auto simp: Let_def)
      ultimately show ?thesis by blast
    qed
  qed
qed

lemma requestCommits_of_dom:
  "dom (requestCommits_of vs m) = dom m \<union> (\<lambda>v. Address (vi_Validator v)) ` set vs"
  by (induction vs arbitrary: m) auto

lemma process_votes_nil_iff:
  "fst (process_votes h r rc vs w) = None \<longleftrightarrow>
     (\<forall>v\<in>set vs. rc (Address (evi_Validator v)) \<noteq> None \<and> vote_error h (sdk_ctx w) v = None)"
  by (induction vs arbitrary: w) (auto simp: Let_def vote_error_def split: sum.splits option.splits)

lemma process_votes_calls:
  "\<exists>cs. codec_calls (snd (process_votes h r rc vs w)) = codec_calls w @ cs \<and>
        (\<forall>b\<in>set cs. \<forall>e. Decode h b = Inl e \<longrightarrow>
           fst (process_votes h r rc vs w) = Some e \<and> last cs = b)"
proof (induction vs arbitrary: w)
  case Nil
  show ?case by simp
next
  case (Cons vote votes)
  show ?case
  proof (cases "rc (Address (evi_Validator vote))")
    case None
    then show ?thesis by (simp add: Let_def)
  next
    case found: (Some reqVote)
    show ?thesis
    proof (cases "Decode h (VoteExtension vote)")
      case (Inl err)
      with found show ?thesis by (simp add: Let_def)
    next
      case (Inr voteExt)
      show ?thesis
      proof (cases "ValidateOracleVoteExtension h (sdk_ctx w) voteExt (currencyPairStrategy h)")
        case (Some err)
        with found Inr show ?thesis by (simp add: Let_def)
      next
        case None
        let ?w1 = "record_decode (VoteExtension vote) w"
        from Cons.IH [of ?w1]
        obtain cs where cs: "codec_calls (snd (process_votes h r rc votes ?w1)) = codec_calls ?w1 @ cs"
          and fail: "\<forall>b\<in>set cs. \<forall>e. Decode h b = Inl e \<longrightarrow>
             fst (process_votes h r rc votes ?w1) = Some e \<and> last cs = b"
          by blast
        have "codec_calls (snd (process_votes h r rc (vote # votes) w)) = codec_calls w @ (VoteExtension vote # cs)"
          using found Inr None cs by (simp add: Let_def)
        moreover have "\<forall>b\<in>set (VoteExtension vote # cs). \<forall>e. Decode h b = Inl e \<longrightarrow>
             fst (process_votes h r rc (vote # votes) w) = Some e \<and> last (VoteExtension vote # cs) = b"
          using found Inr None fail by (auto simp: Let_def)
        ultimately show ?thesis by blast
      qed
    qed
  qed
qed

text \<open>Steps that are read-only, or never panic, compose.\<close>

lemma read_only_yield: "read_only (yield a)"
  by (simp add: read_only_def yield_def)

lemma read_only_note_decode: "read_only (note_decode bz)"
  by (simp add: read_only_def note_decode_def observed_def)

lemma read_only_frame: "read_only f \<Longrightarrow> observed (snd (f w)) = observed w"
  unfolding read_only_def by blast

lemma read_only_fixed: "read_only f \<Longrightarrow> observed w1 = observed w2 \<Longrightarrow> fst (f w1) = fst (f w2)"
  unfolding read_only_def by blast

lemma read_only_and_then:
  fixes f :: "('ctx, 'a) action" and g :: "'a \<Rightarrow> ('ctx, 'b) action"
  assumes f: "read_only f" and g: "\<And>a. read_only (g a)"
  shows "read_only (and_then f g)"
  unfolding read_only_def
proof (intro conjI allI impI)
  fix w
  obtain r w1 where fw: "f w = (r, w1)" by (cases "f w")
  from read_only_frame [OF f, of w] fw have o1: "observed w1 = observed w" by simp
  show "observed (snd (and_then f g w)) = observed w"
  proof (cases r)
    case Panic
    with fw o1 show ?thesis by (simp add: and_then_def)
  next
    case (Returned a)
    from read_only_frame [OF g, of a w1] o1 have "observed (snd (g a w1)) = observed w" by simp
    with Returned fw show ?thesis by (simp add: and_then_def)
  qed
next
  fix w1 w2 :: "'ctx store"
  assume eq: "observed w1 = observed w2"
  obtain r1 v1 where f1: "f w1 = (r1, v1)" by (cases "f w1")
  obtain r2 v2 where f2: "f w2 = (r2, v2)" by (cases "f w2")
  from read_only_fixed [OF f eq] f1 f2 have r: "r1 = r2" by simp
  from read_only_frame [OF f, of w1] read_only_frame [OF f, of w2] f1 f2 eq
  have o: "observed v1 = observed v2" by simp
  show "fst (and_then f g w1) = fst (and_then f g w2)"
  proof (cases r1)
    case Panic
    with r f1 f2 show ?thesis by (simp add: and_then_def)
  next
    case (Returned a)
    from read_only_fixed [OF g o, of a] have "fst (g a v1) = fst (g a v2)" .
    with Returned r f1 f2 show ?thesis by (simp add: and_then_def)
  qed
qed

lemma read_only_reading:
  fixes f :: "'x \<Rightarrow> ('ctx, 'a) action"
  assumes f: "\<And>x. read_only (f x)" and r: "\<And>w1 w2. observed w1 = observed w2 \<Longrightarrow> r w1 = r w2"
  shows "read_only (\<lambda>w. f (r w) w)"
  unfolding read_only_def
proof (intro conjI allI impI)
  fix w
  show "observed (snd (f (r w) w)) = observed w" by (rule read_only_frame [OF f])
next
  fix w1 w2 :: "'ctx store"
  assume eq: "observed w1 = observed w2"
  from r [OF eq] read_only_fixed [OF f eq, of "r w1"]
  show "fst (f (r w1) w1) = fst (f (r w2) w2)" by simp
qed


lemma read_only_range_votes:
  fixes body :: "ExtendedVoteInfo \<Rightarrow> ('ctx, error option) action"
  assumes body: "\<And>vote. read_only (body vote)"
  shows "read_only (range_votes body arr i n)"
proof (induction n arbitrary: i)
  case 0
  show ?case by (simp add: read_only_def)
next
  case (Suc n)
  note frame = read_only_frame [OF Suc.IH] and fixed = read_only_fixed [OF Suc.IH]
  show ?case unfolding read_only_def
  proof (intro conjI allI impI)
    fix w :: "'ctx store"
    obtain r w1 where b: "body (vote_arrays w arr i) w = (r, w1)" by (cases "body (vote_arrays w arr i) w")
    from read_only_frame [OF body, of "vote_arrays w arr i" w] b have o1: "observed w1 = observed w" by simp
    show "observed (snd (range_votes body arr i (Suc n) w)) = observed w"
    proof (cases "r = Returned None")
      case True
      with b o1 frame [of "Suc i" w1] show ?thesis by simp
    next
      case False
      with b o1 show ?thesis by (cases r) (auto split: option.splits)
    qed
  next
    fix w1 w2 :: "'ctx store"
    assume eq: "observed w1 = observed w2"
    then have v: "vote_arrays w1 arr i = vote_arrays w2 arr i" by (simp add: observed_def)
    obtain r1 v1 where b1: "body (vote_arrays w1 arr i) w1 = (r1, v1)" by (cases "body (vote_arrays w1 arr i) w1")
    obtain r2 v2 where b2: "body (vote_arrays w2 arr i) w2 = (r2, v2)" by (cases "body (vote_arrays w2 arr i) w2")
    from read_only_fixed [OF body eq, of "vote_arrays w1 arr i"] v b1 b2 have r: "r1 = r2" by simp
    from read_only_frame [OF body, of "vote_arrays w1 arr i" w1]
      read_only_frame [OF body, of "vote_arrays w2 arr i" w2] b1 b2 eq
    have o: "observed v1 = observed v2" by simp
    show "fst (range_votes body arr i (Suc n) w1) = fst (range_votes body arr i (Suc n) w2)"
    proof (cases "r1 = Returned None")
      case True
      with r b1 b2 have "body (vote_arrays w1 arr i) w1 = (Returned None, v1)"
        and "body (vote_arrays w2 arr i) w2 = (Returned None, v2)" by simp_all
      with fixed [OF o, of "Suc i"] show ?thesis by simp
    next
      case False
      with r have "r2 \<noteq> Returned None" by simp
      with False b1 b2 r show ?thesis
        by (cases r1; cases r2) (auto split: option.splits)
    qed
  qed
qed


lemma read_only_case_sum:
  "(\<And>x. read_only (f x)) \<Longrightarrow> (\<And>y. read_only (g y)) \<Longrightarrow>
     read_only (case s of Inl x \<Rightarrow> f x | Inr y \<Rightarrow> g y)"
  by (cases s) simp_all

lemma read_only_case_option:
  "read_only f \<Longrightarrow> (\<And>x. read_only (g x)) \<Longrightarrow> read_only (case v of None \<Rightarrow> f | Some x \<Rightarrow> g x)"
  by (cases v) simp_all

lemma read_only_log_reading:
  fixes h :: "('ctx, 've, 'cps) StoreHandler"
  assumes "read_only_collaborators h"
    and "\<And>w1 w2 :: 'ctx store. observed w1 = observed w2 \<Longrightarrow> kvs w1 = kvs w2"
  shows "read_only (\<lambda>w. st_logger_Error h msg (kvs w) w)"
proof (rule read_only_reading [where f = "st_logger_Error h msg"])
  show "\<And>x. read_only (st_logger_Error h msg x)"
    using assms(1) unfolding read_only_collaborators_def by blast
  show "\<And>w1 w2 :: 'ctx store. observed w1 = observed w2 \<Longrightarrow> kvs w1 = kvs w2"
    by (rule assms(2))
qed

lemma read_only_collaboratorsD:
  assumes "read_only_collaborators h"
  shows "read_only (st_validateVoteExtensionsFn h eci)"
    and "read_only (st_Decode h bz)"
    and "read_only (st_ValidateOracleVoteExtension h voteExt cps)"
    and "read_only (st_logger_Error h msg kvs)"
  using assms unfolding read_only_collaborators_def by blast+

lemma read_only_prepare_vote_st:
  assumes "read_only_collaborators h"
  shows "read_only (prepare_vote_st h height vote)"
  unfolding prepare_vote_st_def Let_def
  by (intro read_only_and_then read_only_case_sum read_only_case_option read_only_yield
        read_only_note_decode read_only_collaboratorsD [OF assms])

lemma read_only_process_vote_st:
  assumes "read_only_collaborators h"
  shows "read_only (process_vote_st h p rc vote)"
  unfolding process_vote_st_def Let_def
  by (intro read_only_and_then read_only_case_sum read_only_case_option read_only_yield
        read_only_note_decode read_only_collaboratorsD [OF assms] read_only_log_reading [OF assms])
     (simp_all add: observed_def)

lemma read_only_Prepare_st:
  assumes "read_only_collaborators h"
  shows "read_only (ValidateExtendedCommitInfoPrepare_st h height eci)"
  unfolding ValidateExtendedCommitInfoPrepare_st_def
  by (intro read_only_and_then read_only_case_option read_only_yield read_only_range_votes
        read_only_prepare_vote_st [OF assms] read_only_collaboratorsD [OF assms])

lemma read_only_process_loop:
  fixes h :: "('ctx, 've, 'cps) StoreHandler"
  assumes "read_only_collaborators h"
  shows "read_only (\<lambda>w. range_votes
           (process_vote_st h p
              (requestCommits_of (ci_Votes (ProposedLastCommit (requests w p))) Map.empty))
           arr 0 n w)"
proof -
  have "read_only (\<lambda>w. (\<lambda>rc. range_votes (process_vote_st h p rc) arr 0 n)
           (requestCommits_of (ci_Votes (ProposedLastCommit (requests w p))) Map.empty) w)"
    by (rule read_only_reading)
       (simp_all add: read_only_range_votes read_only_process_vote_st [OF assms] observed_def)
  then show ?thesis by simp
qed

lemma read_only_panic: "read_only (\<lambda>w. (Panic, w))"
  by (simp add: read_only_def)

lemma read_only_Process_st:
  assumes "read_only_collaborators h"
  shows "read_only (ValidateExtendedCommitInfoProcess_st h req eci)"
proof (cases req)
  case None
  then show ?thesis unfolding ValidateExtendedCommitInfoProcess_st_def
    by (simp add: read_only_and_then read_only_panic read_only_collaboratorsD [OF assms])
next
  case (Some p)
  then show ?thesis unfolding ValidateExtendedCommitInfoProcess_st_def
    apply simp
    apply (intro read_only_and_then read_only_case_option read_only_yield
        read_only_process_loop [OF assms] read_only_collaboratorsD [OF assms]
        read_only_log_reading [OF assms])
    apply (simp_all add: observed_def)
    done
qed


lemma never_panics_yield: "never_panics (yield a)"
  by (simp add: never_panics_def yield_def)

lemma never_panics_note_decode: "never_panics (note_decode bz)"
  by (simp add: never_panics_def note_decode_def)

lemma never_panics_and_then:
  assumes f: "never_panics f" and g: "\<And>a. never_panics (g a)"
  shows "never_panics (and_then f g)"
  unfolding never_panics_def
proof
  fix w
  obtain r w1 where fw: "f w = (r, w1)" by (cases "f w")
  with f obtain a where r: "r = Returned a" unfolding never_panics_def
    by (cases r) (auto dest: spec [of _ w])
  from g [of a] have "fst (g a w1) \<noteq> Panic" by (simp add: never_panics_def)
  with fw r show "fst (and_then f g w) \<noteq> Panic" by (simp add: and_then_def)
qed

lemma never_panics_case_sum:
  "(\<And>x. never_panics (f x)) \<Longrightarrow> (\<And>y. never_panics (g y)) \<Longrightarrow>
     never_panics (case s of Inl x \<Rightarrow> f x | Inr y \<Rightarrow> g y)"
  by (cases s) simp_all

lemma never_panics_case_option:
  "never_panics f \<Longrightarrow> (\<And>x. never_panics (g x)) \<Longrightarrow>
     never_panics (case v of None \<Rightarrow> f | Some x \<Rightarrow> g x)"
  by (cases v) simp_all

lemma returning_collaboratorsD:
  assumes "returning_collaborators h"
  shows "never_panics (st_validateVoteExtensionsFn h eci)"
    and "never_panics (st_Decode h bz)"
    and "never_panics (st_ValidateOracleVoteExtension h voteExt cps)"
    and "never_panics (st_logger_Error h msg kvs)"
    and "never_panics (\<lambda>w. st_logger_Error h msg (mk w) w)"
  using assms unfolding returning_collaborators_def never_panics_def by blast+

lemma never_panics_range_votes:
  assumes body: "\<And>vote. never_panics (body vote)"
  shows "never_panics (range_votes body arr i n)"
proof (induction n arbitrary: i)
  case 0
  show ?case by (simp add: never_panics_def)
next
  case (Suc n)
  show ?case unfolding never_panics_def
  proof
    fix w
    obtain r w1 where b: "body (vote_arrays w arr i) w = (r, w1)" by (cases "body (vote_arrays w arr i) w")
    from body [of "vote_arrays w arr i"] b have "r \<noteq> Panic" unfolding never_panics_def
      by (auto dest: spec [of _ w])
    moreover from Suc.IH [of "Suc i"] have "fst (range_votes body arr (Suc i) n w1) \<noteq> Panic"
      by (simp add: never_panics_def)
    ultimately show "fst (range_votes body arr i (Suc n) w) \<noteq> Panic"
      using b by (cases r) (auto split: option.splits)
  qed
qed

lemma never_panics_prepare_vote_st:
  assumes "returning_collaborators h"
  shows "never_panics (prepare_vote_st h height vote)"
  unfolding prepare_vote_st_def Let_def
  by (intro never_panics_and_then never_panics_case_sum never_panics_case_option never_panics_yield
        never_panics_note_decode returning_collaboratorsD [OF assms])

lemma never_panics_process_vote_st:
  assumes "returning_collaborators h"
  shows "never_panics (process_vote_st h p rc vote)"
  unfolding process_vote_st_def Let_def
  by (intro never_panics_and_then never_panics_case_sum never_panics_case_option never_panics_yield
        never_panics_note_decode returning_collaboratorsD [OF assms])

lemma never_panics_Process_st:
  assumes "returning_collaborators h"
  shows "never_panics (ValidateExtendedCommitInfoProcess_st h (Some p) eci)"
proof -
  have loop: "never_panics (\<lambda>w. range_votes
           (process_vote_st h p
              (requestCommits_of (ci_Votes (ProposedLastCommit (requests w p))) Map.empty))
           arr 0 n w)" for arr n
  proof -
    have "fst (range_votes (process_vote_st h p rc) arr 0 n w) \<noteq> Panic" for rc w
      using never_panics_range_votes [where body = "process_vote_st h p rc",
          OF never_panics_process_vote_st [OF assms]]
      unfolding never_panics_def by blast
    then show ?thesis by (simp add: never_panics_def)
  qed
  show ?thesis unfolding ValidateExtendedCommitInfoProcess_st_def
    apply simp
    apply (intro never_panics_and_then never_panics_case_option never_panics_yield loop
        returning_collaboratorsD [OF assms])
    done
qed

lemma lift_handler_read_only: "read_only_collaborators (lift_handler h)"
  by (simp add: read_only_collaborators_def read_only_def lift_handler_def observed_def commit_of_def)

lemma lift_handler_returning: "returning_collaborators (lift_handler h)"
  by (simp add: returning_collaborators_def never_panics_def lift_handler_def)

lemmas store_example_defs = example_store_def example_commit_arg_def example_panicking_handler_def
  lift_handler_def commit_of_def ValidateExtendedCommitInfoPrepare_st_def
  ValidateExtendedCommitInfoProcess_st_def prepare_vote_st_def process_vote_st_def and_then_def
  yield_def note_decode_def observed_def numeral_2_eq_2

lemma world_of_simps [simp]:
  "sdk_ctx (world_of w) = consensus w"
  "logger (world_of w) = st_logger w"
  "codec_calls (world_of w) = st_codec_calls w"
  by (simp_all add: world_of_def)

lemma prepare_loop_lift:
  "range_votes (prepare_vote_st (lift_handler h) height) arr i n w
     = (Returned (fst (prepare_votes h height (map (vote_arrays w arr) [i..<i + n]) (world_of w))),
        w\<lparr>st_logger := logger (snd (prepare_votes h height (map (vote_arrays w arr) [i..<i + n]) (world_of w))),
          st_codec_calls := codec_calls (snd (prepare_votes h height (map (vote_arrays w arr) [i..<i + n]) (world_of w)))\<rparr>)"
proof (induction n arbitrary: i w)
  case 0
  show ?case by simp
next
  case (Suc n)
  let ?vote = "vote_arrays w arr i"
  let ?w1 = "w\<lparr>st_codec_calls := st_codec_calls w @ [VoteExtension ?vote]\<rparr>"
  have upt: "[i..<i + Suc n] = i # [Suc i..<Suc i + n]" by (simp add: upt_conv_Cons)
  have w1: "world_of ?w1 = record_decode (VoteExtension ?vote) (world_of w)"
    by (simp add: world_of_def record_decode_def)
  show ?case
  proof (cases "Decode h (VoteExtension ?vote)")
    case (Inl err)
    then show ?thesis unfolding upt
      by (simp add: prepare_vote_st_def lift_handler_def and_then_def yield_def note_decode_def
            Let_def record_decode_def del: upt_Suc)
  next
    case (Inr voteExt)
    show ?thesis
    proof (cases "ValidateOracleVoteExtension h (consensus w) voteExt (currencyPairStrategy h)")
      case (Some err)
      with Inr show ?thesis unfolding upt
        by (simp add: prepare_vote_st_def lift_handler_def and_then_def yield_def note_decode_def
              Let_def record_decode_def log_error_def del: upt_Suc)
    next
      case None
      with Inr have step: "prepare_vote_st (lift_handler h) height ?vote w = (Returned None, ?w1)"
        by (simp add: prepare_vote_st_def lift_handler_def and_then_def yield_def note_decode_def)
      have pure: "prepare_votes h height (map (vote_arrays w arr) [i..<i + Suc n]) (world_of w)
          = prepare_votes h height (map (vote_arrays ?w1 arr) [Suc i..<Suc i + n]) (world_of ?w1)"
        unfolding upt using Inr None by (simp add: Let_def w1 record_decode_def del: upt_Suc)
      show ?thesis unfolding pure using step Suc.IH [of "Suc i" ?w1] by (simp del: upt_Suc)
    qed
  qed
qed


lemma process_loop_lift:
  "range_votes (process_vote_st (lift_handler h) p rc) arr i n w
     = (Returned (fst (process_votes h (requests w p) rc (map (vote_arrays w arr) [i..<i + n]) (world_of w))),
        w\<lparr>st_logger := logger (snd (process_votes h (requests w p) rc
                                       (map (vote_arrays w arr) [i..<i + n]) (world_of w))),
          st_codec_calls := codec_calls (snd (process_votes h (requests w p) rc
                                       (map (vote_arrays w arr) [i..<i + n]) (world_of w)))\<rparr>)"
proof (induction n arbitrary: i w)
  case 0
  show ?case by simp
next
  case (Suc n)
  let ?vote = "vote_arrays w arr i"
  let ?w1 = "w\<lparr>st_codec_calls := st_codec_calls w @ [VoteExtension ?vote]\<rparr>"
  have upt: "[i..<i + Suc n] = i # [Suc i..<Suc i + n]" by (simp add: upt_conv_Cons)
  have w1: "world_of ?w1 = record_decode (VoteExtension ?vote) (world_of w)"
    by (simp add: world_of_def record_decode_def)
  show ?case
  proof (cases "rc (Address (evi_Validator ?vote))")
    case None
    then show ?thesis unfolding upt
      by (simp add: process_vote_st_def lift_handler_def and_then_def yield_def
            Let_def log_error_def del: upt_Suc)
  next
    case found: (Some reqVote)
    show ?thesis
    proof (cases "Decode h (VoteExtension ?vote)")
      case (Inl err)
      with found show ?thesis unfolding upt
        by (simp add: process_vote_st_def lift_handler_def and_then_def yield_def note_decode_def
              Let_def record_decode_def del: upt_Suc)
    next
      case (Inr voteExt)
      show ?thesis
      proof (cases "ValidateOracleVoteExtension h (consensus w) voteExt (currencyPairStrategy h)")
        case (Some err)
        with found Inr show ?thesis unfolding upt
          by (simp add: process_vote_st_def lift_handler_def and_then_def yield_def note_decode_def
                Let_def record_decode_def log_error_def del: upt_Suc)
      next
        case None
        with found Inr have step: "process_vote_st (lift_handler h) p rc ?vote w = (Returned None, ?w1)"
          by (simp add: process_vote_st_def lift_handler_def and_then_def yield_def note_decode_def)
        have pure: "process_votes h (requests w p) rc (map (vote_arrays w arr) [i..<i + Suc n]) (world_of w)
            = process_votes h (requests ?w1 p) rc (map (vote_arrays ?w1 arr) [Suc i..<Suc i + n]) (world_of ?w1)"
          unfolding upt using found Inr None by (simp add: Let_def w1 record_decode_def del: upt_Suc)
        show ?thesis unfolding pure using step Suc.IH [of "Suc i" ?w1] by (simp del: upt_Suc)
      qed
    qed
  qed
qed

lemma store_model_extends_value_model:
  "ValidateExtendedCommitInfoPrepare_st (lift_handler h) height eci w
     = (Returned (fst (ValidateExtendedCommitInfoPrepare h height (commit_of w eci) (world_of w))),
        w\<lparr>st_logger := logger (snd (ValidateExtendedCommitInfoPrepare h height (commit_of w eci) (world_of w))),
          st_codec_calls := codec_calls (snd (ValidateExtendedCommitInfoPrepare h height (commit_of w eci) (world_of w)))\<rparr>) \<and>
   ValidateExtendedCommitInfoProcess_st (lift_handler h) req eci w
     = (fst (ValidateExtendedCommitInfoProcess h (map_option (requests w) req) (commit_of w eci) (world_of w)),
        w\<lparr>st_logger := logger (snd (ValidateExtendedCommitInfoProcess h (map_option (requests w) req)
                                       (commit_of w eci) (world_of w))),
          st_codec_calls := codec_calls (snd (ValidateExtendedCommitInfoProcess h (map_option (requests w) req)
                                       (commit_of w eci) (world_of w)))\<rparr>)"
proof (rule conjI)
  have loop: "range_votes (prepare_vote_st (lift_handler h) height) arr 0 n w
     = (Returned (fst (prepare_votes h height (map (vote_arrays w arr) [0..<n]) (world_of w))),
        w\<lparr>st_logger := logger (snd (prepare_votes h height (map (vote_arrays w arr) [0..<n]) (world_of w))),
          st_codec_calls := codec_calls (snd (prepare_votes h height (map (vote_arrays w arr) [0..<n]) (world_of w)))\<rparr>)"
    for arr n
    using prepare_loop_lift [of h height arr 0 n w] by simp
  show "ValidateExtendedCommitInfoPrepare_st (lift_handler h) height eci w
     = (Returned (fst (ValidateExtendedCommitInfoPrepare h height (commit_of w eci) (world_of w))),
        w\<lparr>st_logger := logger (snd (ValidateExtendedCommitInfoPrepare h height (commit_of w eci) (world_of w))),
          st_codec_calls := codec_calls (snd (ValidateExtendedCommitInfoPrepare h height (commit_of w eci) (world_of w)))\<rparr>)"
  proof (cases "validateVoteExtensionsFn h (consensus w) (commit_of w eci)")
    case None
    have cv: "eci_Votes (commit_of w eci)
        = map (vote_arrays w (sl_array (arg_Votes eci))) [0..<sl_len (arg_Votes eci)]"
      by (simp add: commit_of_def)
    from None show ?thesis
      unfolding ValidateExtendedCommitInfoPrepare_st_def ValidateExtendedCommitInfoPrepare_def
      by (simp add: and_then_def lift_handler_def [of h] loop [unfolded lift_handler_def] cv)
  next
    case (Some err)
    then show ?thesis
      unfolding ValidateExtendedCommitInfoPrepare_st_def ValidateExtendedCommitInfoPrepare_def
      by (simp add: and_then_def yield_def lift_handler_def log_error_def)
  qed
next
  have loop: "range_votes (process_vote_st (lift_handler h) p rc) arr 0 n w
     = (Returned (fst (process_votes h (requests w p) rc (map (vote_arrays w arr) [0..<n]) (world_of w))),
        w\<lparr>st_logger := logger (snd (process_votes h (requests w p) rc
                                       (map (vote_arrays w arr) [0..<n]) (world_of w))),
          st_codec_calls := codec_calls (snd (process_votes h (requests w p) rc
                                       (map (vote_arrays w arr) [0..<n]) (world_of w)))\<rparr>)"
    for p rc arr n
    using process_loop_lift [of h p rc arr 0 n w] by simp
  have cv: "eci_Votes (commit_of w eci)
        = map (vote_arrays w (sl_array (arg_Votes eci))) [0..<sl_len (arg_Votes eci)]"
    by (simp add: commit_of_def)
  have v: "st_validateVoteExtensionsFn (lift_handler h) eci w
      = (Returned (validateVoteExtensionsFn h (consensus w) (commit_of w eci)), w)"
    by (simp add: lift_handler_def)
  have lg: "\<And>msg kvs. st_logger_Error (lift_handler h) msg kvs w
      = (Returned (), w\<lparr>st_logger := st_logger w @ [(msg, kvs)]\<rparr>)"
    by (simp add: lift_handler_def)
  show "ValidateExtendedCommitInfoProcess_st (lift_handler h) req eci w
     = (fst (ValidateExtendedCommitInfoProcess h (map_option (requests w) req) (commit_of w eci) (world_of w)),
        w\<lparr>st_logger := logger (snd (ValidateExtendedCommitInfoProcess h (map_option (requests w) req)
                                       (commit_of w eci) (world_of w))),
          st_codec_calls := codec_calls (snd (ValidateExtendedCommitInfoProcess h (map_option (requests w) req)
                                       (commit_of w eci) (world_of w)))\<rparr>)"
  proof (cases req)
    case None
    then show ?thesis
      unfolding ValidateExtendedCommitInfoProcess_st_def ValidateExtendedCommitInfoProcess_def
      by (simp add: and_then_def v split: option.splits)
  next
    case (Some p)
    show ?thesis
    proof (cases "validateVoteExtensionsFn h (consensus w) (commit_of w eci)")
      case None
      with Some show ?thesis
        unfolding ValidateExtendedCommitInfoProcess_st_def ValidateExtendedCommitInfoProcess_def
        by (simp add: and_then_def v loop cv Let_def)
    next
      case (Some err)
      with \<open>req = Some p\<close> show ?thesis
        unfolding ValidateExtendedCommitInfoProcess_st_def ValidateExtendedCommitInfoProcess_def
        by (simp add: and_then_def yield_def v lg log_error_def)
    qed
  qed
qed


lemmas store_run_defs = store_example_defs example_defs

subsection \<open>Claims\<close>

text \<open>
  C1. When the supermajority predicate returns an error, both
  \<open>ValidateExtendedCommitInfoPrepare\<close> and \<open>ValidateExtendedCommitInfoProcess\<close> (called
  with a non-nil request) return that error, and the codec is not called: the record of
  \<open>Decode\<close> calls is as it was.
\<close>

theorem supermajority_failure_aborts_before_decoding:
  assumes "validateVoteExtensionsFn h (sdk_ctx w) eci = Some err"
  shows "fst (ValidateExtendedCommitInfoPrepare h height eci w) = Some err \<and>
         codec_calls (snd (ValidateExtendedCommitInfoPrepare h height eci w)) = codec_calls w \<and>
         fst (ValidateExtendedCommitInfoProcess h (Some req) eci w) = Returned (Some err) \<and>
         codec_calls (snd (ValidateExtendedCommitInfoProcess h (Some req) eci w)) = codec_calls w"
  using assms
  by (simp add: ValidateExtendedCommitInfoPrepare_def ValidateExtendedCommitInfoProcess_def)

theorem supermajority_failure_aborts_before_decoding_witness:
  "validateVoteExtensionsFn example_handler (sdk_ctx example_world)
     (example_commit [example_vote [1] [5]]) = Some (Errorf ''insufficient voting power'') \<and>
   fst (ValidateExtendedCommitInfoPrepare example_handler 7
          (example_commit [example_vote [1] [5]]) example_world)
     = Some (Errorf ''insufficient voting power'') \<and>
   codec_calls (snd (ValidateExtendedCommitInfoPrepare example_handler 7
          (example_commit [example_vote [1] [5]]) example_world)) = [] \<and>
   fst (ValidateExtendedCommitInfoProcess example_handler (Some (example_request [[1]]))
          (example_commit [example_vote [1] [5]]) example_world)
     = Returned (Some (Errorf ''insufficient voting power'')) \<and>
   codec_calls (snd (ValidateExtendedCommitInfoProcess example_handler (Some (example_request [[1]]))
          (example_commit [example_vote [1] [5]]) example_world)) = []"
proof -
  have hyp: "validateVoteExtensionsFn example_handler (sdk_ctx example_world)
     (example_commit [example_vote [1] [5]]) = Some (Errorf ''insufficient voting power'')"
    by (simp add: example_defs)
  have "codec_calls example_world = []" by (simp add: example_defs)
  with hyp supermajority_failure_aborts_before_decoding [OF hyp, of 7 "example_request [[1]]"]
  show ?thesis by simp
qed


text \<open>
  C2. In \<open>ValidateExtendedCommitInfoProcess\<close>, a vote of the extended commit info whose
  validator address is the address of no vote in \<open>req.ProposedLastCommit.Votes\<close> makes
  the call return a non-nil error, whatever the supermajority predicate, the codec and
  the vote validator say. The concrete run has the predicate succeed and the absent
  validator's vote decode and validate.
\<close>

theorem process_rejects_vote_absent_from_last_commit:
  assumes "vote \<in> set (eci_Votes eci)"
    and "Address (evi_Validator vote) \<notin> (\<lambda>v. Address (vi_Validator v)) ` set (ci_Votes (ProposedLastCommit req))"
  shows "\<exists>err. fst (ValidateExtendedCommitInfoProcess h (Some req) eci w) = Returned (Some err)"
proof (cases "validateVoteExtensionsFn h (sdk_ctx w) eci")
  case (Some err)
  then show ?thesis by (simp add: ValidateExtendedCommitInfoProcess_def)
next
  case None
  let ?rc = "requestCommits_of (ci_Votes (ProposedLastCommit req)) Map.empty"
  have "Address (evi_Validator vote) \<notin> dom ?rc"
    using assms(2) by (simp add: requestCommits_of_dom)
  then have "?rc (Address (evi_Validator vote)) = None" by blast
  with assms(1) have "fst (process_votes h req ?rc (eci_Votes eci) w) \<noteq> None"
    unfolding process_votes_nil_iff by blast
  with None show ?thesis
    by (auto simp: ValidateExtendedCommitInfoProcess_def Let_def)
qed

theorem process_rejects_vote_absent_from_last_commit_witness:
  "example_vote [2] [6] \<in> set (eci_Votes (example_commit [example_vote [1] [5], example_vote [2] [6]])) \<and>
   Address (evi_Validator (example_vote [2] [6]))
     \<notin> (\<lambda>v. Address (vi_Validator v)) ` set (ci_Votes (ProposedLastCommit (example_request [[1], [3]]))) \<and>
   validateVoteExtensionsFn example_handler (sdk_ctx example_world)
     (example_commit [example_vote [1] [5], example_vote [2] [6]]) = None \<and>
   vote_error example_handler (sdk_ctx example_world) (example_vote [2] [6]) = None \<and>
   (\<exists>err. fst (ValidateExtendedCommitInfoProcess example_handler (Some (example_request [[1], [3]]))
                 (example_commit [example_vote [1] [5], example_vote [2] [6]]) example_world)
           = Returned (Some err))"
proof -
  have h1: "example_vote [2] [6] \<in> set (eci_Votes (example_commit [example_vote [1] [5], example_vote [2] [6]]))"
    by (simp add: example_defs)
  have h2: "Address (evi_Validator (example_vote [2] [6]))
     \<notin> (\<lambda>v. Address (vi_Validator v)) ` set (ci_Votes (ProposedLastCommit (example_request [[1], [3]])))"
    by (simp add: example_defs)
  have h3: "validateVoteExtensionsFn example_handler (sdk_ctx example_world)
     (example_commit [example_vote [1] [5], example_vote [2] [6]]) = None"
    by (simp add: example_defs)
  have h4: "vote_error example_handler (sdk_ctx example_world) (example_vote [2] [6]) = None"
    by (simp add: example_defs vote_error_def)
  from h1 h2 h3 h4
    process_rejects_vote_absent_from_last_commit [OF h1 h2, of example_handler example_world]
  show ?thesis by blast
qed

text \<open>
  C3. In both entry points a failing \<open>Decode\<close> ends the whole call with the codec's
  error. Every \<open>Decode\<close> call of a run is recorded in \<open>codec_calls\<close>: whenever a call
  made during the run fails, the run returns exactly that error and that call is the last
  one made, so no later vote is examined. And a vote whose extension bytes the codec
  rejects, anywhere in the batch, keeps the call from returning nil.
\<close>

theorem decode_failure_aborts_validation:
  "(\<forall>b\<in>set (drop (length (codec_calls w))
              (codec_calls (snd (ValidateExtendedCommitInfoPrepare h height eci w)))).
      \<forall>err. Decode h b = Inl err \<longrightarrow>
        fst (ValidateExtendedCommitInfoPrepare h height eci w) = Some err \<and>
        last (codec_calls (snd (ValidateExtendedCommitInfoPrepare h height eci w))) = b) \<and>
   (\<forall>b\<in>set (drop (length (codec_calls w))
              (codec_calls (snd (ValidateExtendedCommitInfoProcess h req eci w)))).
      \<forall>err. Decode h b = Inl err \<longrightarrow>
        fst (ValidateExtendedCommitInfoProcess h req eci w) = Returned (Some err) \<and>
        last (codec_calls (snd (ValidateExtendedCommitInfoProcess h req eci w))) = b) \<and>
   (\<forall>vote\<in>set (eci_Votes eci). \<forall>err. Decode h (VoteExtension vote) = Inl err \<longrightarrow>
      fst (ValidateExtendedCommitInfoPrepare h height eci w) \<noteq> None \<and>
      fst (ValidateExtendedCommitInfoProcess h req eci w) \<noteq> Returned None)"
proof (intro conjI)
  show "\<forall>b\<in>set (drop (length (codec_calls w))
              (codec_calls (snd (ValidateExtendedCommitInfoPrepare h height eci w)))).
      \<forall>err. Decode h b = Inl err \<longrightarrow>
        fst (ValidateExtendedCommitInfoPrepare h height eci w) = Some err \<and>
        last (codec_calls (snd (ValidateExtendedCommitInfoPrepare h height eci w))) = b"
  proof (cases "validateVoteExtensionsFn h (sdk_ctx w) eci")
    case (Some e)
    then show ?thesis by (simp add: ValidateExtendedCommitInfoPrepare_def)
  next
    case None
    from prepare_votes_calls [of h height "eci_Votes eci" w]
    obtain cs where cs: "codec_calls (snd (prepare_votes h height (eci_Votes eci) w)) = codec_calls w @ cs"
      and fail: "\<forall>b\<in>set cs. \<forall>e. Decode h b = Inl e \<longrightarrow>
           fst (prepare_votes h height (eci_Votes eci) w) = Some e \<and> last cs = b"
      by blast
    have "\<forall>b\<in>set cs. last (codec_calls w @ cs) = last cs" by (auto simp: last_append)
    with None cs fail show ?thesis
      by (auto simp: ValidateExtendedCommitInfoPrepare_def)
  qed
next
  show "\<forall>b\<in>set (drop (length (codec_calls w))
              (codec_calls (snd (ValidateExtendedCommitInfoProcess h req eci w)))).
      \<forall>err. Decode h b = Inl err \<longrightarrow>
        fst (ValidateExtendedCommitInfoProcess h req eci w) = Returned (Some err) \<and>
        last (codec_calls (snd (ValidateExtendedCommitInfoProcess h req eci w))) = b"
  proof (cases "validateVoteExtensionsFn h (sdk_ctx w) eci")
    case (Some e)
    then show ?thesis by (simp add: ValidateExtendedCommitInfoProcess_def split: option.splits)
  next
    case None
    show ?thesis
    proof (cases req)
      case no_req: None
      with None show ?thesis by (simp add: ValidateExtendedCommitInfoProcess_def)
    next
      case (Some r)
      let ?rc = "requestCommits_of (ci_Votes (ProposedLastCommit r)) Map.empty"
      from process_votes_calls [of h r ?rc "eci_Votes eci" w]
      obtain cs where cs: "codec_calls (snd (process_votes h r ?rc (eci_Votes eci) w)) = codec_calls w @ cs"
        and fail: "\<forall>b\<in>set cs. \<forall>e. Decode h b = Inl e \<longrightarrow>
             fst (process_votes h r ?rc (eci_Votes eci) w) = Some e \<and> last cs = b"
        by blast
      have "\<forall>b\<in>set cs. last (codec_calls w @ cs) = last cs" by (auto simp: last_append)
      with None Some cs fail show ?thesis
        by (auto simp: ValidateExtendedCommitInfoProcess_def Let_def)
    qed
  qed
next
  show "\<forall>vote\<in>set (eci_Votes eci). \<forall>err. Decode h (VoteExtension vote) = Inl err \<longrightarrow>
      fst (ValidateExtendedCommitInfoPrepare h height eci w) \<noteq> None \<and>
      fst (ValidateExtendedCommitInfoProcess h req eci w) \<noteq> Returned None"
  proof (intro ballI allI impI)
    fix vote err
    assume vote: "vote \<in> set (eci_Votes eci)" and dec: "Decode h (VoteExtension vote) = Inl err"
    then have bad: "vote_error h (sdk_ctx w) vote \<noteq> None" by (simp add: vote_error_def)
    have "fst (prepare_votes h height (eci_Votes eci) w) \<noteq> None"
      using vote bad by (auto simp: prepare_votes_nil_iff)
    then have p: "fst (ValidateExtendedCommitInfoPrepare h height eci w) \<noteq> None"
      by (simp add: ValidateExtendedCommitInfoPrepare_def split: option.splits)
    have "\<And>r rc. fst (process_votes h r rc (eci_Votes eci) w) \<noteq> None"
      using vote bad by (auto simp: process_votes_nil_iff)
    then have "fst (ValidateExtendedCommitInfoProcess h req eci w) \<noteq> Returned None"
      by (simp add: ValidateExtendedCommitInfoProcess_def Let_def split: option.splits)
    with p show "fst (ValidateExtendedCommitInfoPrepare h height eci w) \<noteq> None \<and>
      fst (ValidateExtendedCommitInfoProcess h req eci w) \<noteq> Returned None" by simp
  qed
qed


theorem decode_failure_aborts_validation_witness:
  "[] \<in> set (drop (length (codec_calls example_world))
      (codec_calls (snd (ValidateExtendedCommitInfoPrepare example_handler 7
         (example_commit [example_vote [1] [5], example_vote [2] [], example_vote [3] [6]]) example_world)))) \<and>
   [] \<in> set (drop (length (codec_calls example_world))
      (codec_calls (snd (ValidateExtendedCommitInfoProcess example_handler (Some (example_request [[1], [2], [3]]))
         (example_commit [example_vote [1] [5], example_vote [2] [], example_vote [3] [6]]) example_world)))) \<and>
   example_vote [2] [] \<in> set (eci_Votes
      (example_commit [example_vote [1] [5], example_vote [2] [], example_vote [3] [6]])) \<and>
   Decode example_handler [] = Inl (Errorf ''empty vote extension'') \<and>
   fst (ValidateExtendedCommitInfoPrepare example_handler 7
      (example_commit [example_vote [1] [5], example_vote [2] [], example_vote [3] [6]]) example_world)
     = Some (Errorf ''empty vote extension'') \<and>
   fst (ValidateExtendedCommitInfoProcess example_handler (Some (example_request [[1], [2], [3]]))
      (example_commit [example_vote [1] [5], example_vote [2] [], example_vote [3] [6]]) example_world)
     = Returned (Some (Errorf ''empty vote extension'')) \<and>
   codec_calls (snd (ValidateExtendedCommitInfoPrepare example_handler 7
      (example_commit [example_vote [1] [5], example_vote [2] [], example_vote [3] [6]]) example_world))
     = [[5], []] \<and>
   codec_calls (snd (ValidateExtendedCommitInfoProcess example_handler (Some (example_request [[1], [2], [3]]))
      (example_commit [example_vote [1] [5], example_vote [2] [], example_vote [3] [6]]) example_world))
     = [[5], []]"
proof -
  let ?eci = "example_commit [example_vote [1] [5], example_vote [2] [], example_vote [3] [6]]"
  let ?req = "Some (example_request [[1], [2], [3]])"
  have calls1: "codec_calls (snd (ValidateExtendedCommitInfoPrepare example_handler 7 ?eci example_world))
      = [[5], []]"
    by (simp add: example_defs)
  have calls2: "codec_calls (snd (ValidateExtendedCommitInfoProcess example_handler ?req ?eci example_world))
      = [[5], []]"
    by (simp add: example_defs)
  have w0: "codec_calls example_world = []" by (simp add: example_defs)
  have dec: "Decode example_handler [] = Inl (Errorf ''empty vote extension'')"
    by (simp add: example_defs)
  have mem: "example_vote [2] [] \<in> set (eci_Votes ?eci)" by (simp add: example_defs)
  from decode_failure_aborts_validation [of example_world example_handler 7 ?eci ?req]
    calls1 calls2 w0 dec mem
  show ?thesis by simp
qed

text \<open>
  C4. \<open>ValidateExtendedCommitInfoPrepare\<close> returns nil exactly when the supermajority
  predicate succeeds and every vote decodes and passes \<open>ValidateOracleVoteExtension\<close>.
  When the predicate succeeds, the first vote in order that fails (in decoding or in
  validation) ends the call with its error, and the codec has been called on the votes up
  to and including that one and on no later vote.
\<close>

theorem prepare_returns_nil_iff_all_votes_pass:
  "(fst (ValidateExtendedCommitInfoPrepare h height eci w) = None \<longleftrightarrow>
      validateVoteExtensionsFn h (sdk_ctx w) eci = None \<and>
      (\<forall>vote\<in>set (eci_Votes eci). \<exists>voteExt.
          Decode h (VoteExtension vote) = Inr voteExt \<and>
          ValidateOracleVoteExtension h (sdk_ctx w) voteExt (currencyPairStrategy h) = None)) \<and>
   (\<forall>pre vote post err.
      validateVoteExtensionsFn h (sdk_ctx w) eci = None \<and>
      eci_Votes eci = pre @ vote # post \<and>
      (\<forall>v\<in>set pre. vote_error h (sdk_ctx w) v = None) \<and>
      vote_error h (sdk_ctx w) vote = Some err \<longrightarrow>
        fst (ValidateExtendedCommitInfoPrepare h height eci w) = Some err \<and>
        codec_calls (snd (ValidateExtendedCommitInfoPrepare h height eci w))
          = codec_calls w @ map VoteExtension (pre @ [vote]))"
proof (rule conjI)
  have ok: "\<And>vote. vote_error h (sdk_ctx w) vote = None \<longleftrightarrow>
      (\<exists>voteExt. Decode h (VoteExtension vote) = Inr voteExt \<and>
         ValidateOracleVoteExtension h (sdk_ctx w) voteExt (currencyPairStrategy h) = None)"
    by (simp add: vote_error_def split: sum.splits)
  show "fst (ValidateExtendedCommitInfoPrepare h height eci w) = None \<longleftrightarrow>
      validateVoteExtensionsFn h (sdk_ctx w) eci = None \<and>
      (\<forall>vote\<in>set (eci_Votes eci). \<exists>voteExt.
          Decode h (VoteExtension vote) = Inr voteExt \<and>
          ValidateOracleVoteExtension h (sdk_ctx w) voteExt (currencyPairStrategy h) = None)"
    by (cases "validateVoteExtensionsFn h (sdk_ctx w) eci")
       (simp_all add: ValidateExtendedCommitInfoPrepare_def prepare_votes_nil_iff ok)
next
  have "fst (ValidateExtendedCommitInfoPrepare h height eci w) = Some err \<and>
        codec_calls (snd (ValidateExtendedCommitInfoPrepare h height eci w))
          = codec_calls w @ map VoteExtension (pre @ [vote])"
    if a: "validateVoteExtensionsFn h (sdk_ctx w) eci = None \<and>
      eci_Votes eci = pre @ vote # post \<and>
      (\<forall>v\<in>set pre. vote_error h (sdk_ctx w) v = None) \<and>
      vote_error h (sdk_ctx w) vote = Some err"
    for pre vote post err
  proof -
    from a have "fst (prepare_votes h height (pre @ vote # post) w) = Some err \<and>
       codec_calls (snd (prepare_votes h height (pre @ vote # post) w))
         = codec_calls w @ map VoteExtension (pre @ [vote])"
      using prepare_votes_first_failure [of pre h w vote err height post] by blast
    with a show ?thesis
      by (simp add: ValidateExtendedCommitInfoPrepare_def)
  qed
  then show "\<forall>pre vote post err.
      validateVoteExtensionsFn h (sdk_ctx w) eci = None \<and>
      eci_Votes eci = pre @ vote # post \<and>
      (\<forall>v\<in>set pre. vote_error h (sdk_ctx w) v = None) \<and>
      vote_error h (sdk_ctx w) vote = Some err \<longrightarrow>
        fst (ValidateExtendedCommitInfoPrepare h height eci w) = Some err \<and>
        codec_calls (snd (ValidateExtendedCommitInfoPrepare h height eci w))
          = codec_calls w @ map VoteExtension (pre @ [vote])"
    by blast
qed

theorem prepare_returns_nil_iff_all_votes_pass_witness:
  "fst (ValidateExtendedCommitInfoPrepare example_handler 7
      (example_commit [example_vote [1] [5], example_vote [2] [6, 7]]) example_world) = None \<and>
   validateVoteExtensionsFn example_handler (sdk_ctx example_world)
      (example_commit [example_vote [1] [5], example_vote [2] [6, 7, 8], example_vote [3] []]) = None \<and>
   vote_error example_handler (sdk_ctx example_world) (example_vote [1] [5]) = None \<and>
   vote_error example_handler (sdk_ctx example_world) (example_vote [2] [6, 7, 8])
     = Some (Errorf ''too many prices'') \<and>
   fst (ValidateExtendedCommitInfoPrepare example_handler 7
      (example_commit [example_vote [1] [5], example_vote [2] [6, 7, 8], example_vote [3] []]) example_world)
     = Some (Errorf ''too many prices'') \<and>
   codec_calls (snd (ValidateExtendedCommitInfoPrepare example_handler 7
      (example_commit [example_vote [1] [5], example_vote [2] [6, 7, 8], example_vote [3] []]) example_world))
     = [[5], [6, 7, 8]]"
proof -
  let ?ok = "example_commit [example_vote [1] [5], example_vote [2] [6, 7]]"
  let ?bad = "example_commit [example_vote [1] [5], example_vote [2] [6, 7, 8], example_vote [3] []]"
  have ok: "validateVoteExtensionsFn example_handler (sdk_ctx example_world) ?ok = None \<and>
      (\<forall>vote\<in>set (eci_Votes ?ok). \<exists>voteExt.
          Decode example_handler (VoteExtension vote) = Inr voteExt \<and>
          ValidateOracleVoteExtension example_handler (sdk_ctx example_world) voteExt
            (currencyPairStrategy example_handler) = None)"
    by (simp add: example_defs)
  have nil: "fst (ValidateExtendedCommitInfoPrepare example_handler 7 ?ok example_world) = None"
    using ok prepare_returns_nil_iff_all_votes_pass [of example_handler 7 ?ok example_world] by blast
  have h1: "validateVoteExtensionsFn example_handler (sdk_ctx example_world) ?bad = None"
    by (simp add: example_defs)
  have h2: "eci_Votes ?bad = [example_vote [1] [5]] @ example_vote [2] [6, 7, 8] # [example_vote [3] []]"
    by (simp add: example_defs)
  have h3: "vote_error example_handler (sdk_ctx example_world) (example_vote [1] [5]) = None"
    by (simp add: example_defs vote_error_def)
  have h4: "vote_error example_handler (sdk_ctx example_world) (example_vote [2] [6, 7, 8])
     = Some (Errorf ''too many prices'')"
    by (simp add: example_defs vote_error_def)
  have w0: "codec_calls example_world = []" by (simp add: example_defs)
  have ext: "map VoteExtension ([example_vote [1] [5]] @ [example_vote [2] [6, 7, 8]]) = [[5], [6, 7, 8]]"
    by (simp add: example_defs)
  have "fst (ValidateExtendedCommitInfoPrepare example_handler 7 ?bad example_world)
          = Some (Errorf ''too many prices'') \<and>
        codec_calls (snd (ValidateExtendedCommitInfoPrepare example_handler 7 ?bad example_world))
          = codec_calls example_world
            @ map VoteExtension ([example_vote [1] [5]] @ [example_vote [2] [6, 7, 8]])"
    using h1 h2 h3 h4 prepare_returns_nil_iff_all_votes_pass [of example_handler 7 ?bad example_world]
    by (metis empty_iff empty_set set_ConsD)
  with nil h1 h3 h4 w0 ext show ?thesis by simp
qed


text \<open>
  C6. Both entry points are deterministic and change nothing they are given. Collaborators
  are arbitrary steps over the store; when each of them is a fixed function that only
  reads (it leaves the consensus state, the request objects and the vote arrays as they
  are, and its outcome depends on nothing else), then so is each entry point: after the
  call the consensus state and every object the arguments refer to are unchanged, and
  two calls with the same arguments from stores that agree on that part have the same
  outcome, whatever the logger and the codec have seen before.
\<close>

theorem validators_read_only_and_deterministic:
  assumes "read_only_collaborators h"
  shows "observed (snd (ValidateExtendedCommitInfoPrepare_st h height eci w)) = observed w \<and>
         observed (snd (ValidateExtendedCommitInfoProcess_st h req eci w)) = observed w \<and>
         (\<forall>w'. observed w' = observed w \<longrightarrow>
            fst (ValidateExtendedCommitInfoPrepare_st h height eci w')
              = fst (ValidateExtendedCommitInfoPrepare_st h height eci w) \<and>
            fst (ValidateExtendedCommitInfoProcess_st h req eci w')
              = fst (ValidateExtendedCommitInfoProcess_st h req eci w))"
  using read_only_frame [OF read_only_Prepare_st [OF assms]]
        read_only_frame [OF read_only_Process_st [OF assms]]
        read_only_fixed [OF read_only_Prepare_st [OF assms]]
        read_only_fixed [OF read_only_Process_st [OF assms]]
  by blast

theorem validators_read_only_and_deterministic_witness:
  "read_only_collaborators (lift_handler example_handler) \<and>
   observed (example_store\<lparr>st_logger := [(''earlier entry'', [])], st_codec_calls := [[9]]\<rparr>)
     = observed example_store \<and>
   fst (ValidateExtendedCommitInfoPrepare_st (lift_handler example_handler) 7 (example_commit_arg 2)
          (example_store\<lparr>st_logger := [(''earlier entry'', [])], st_codec_calls := [[9]]\<rparr>))
     = fst (ValidateExtendedCommitInfoPrepare_st (lift_handler example_handler) 7 (example_commit_arg 2)
          example_store) \<and>
   fst (ValidateExtendedCommitInfoProcess_st (lift_handler example_handler) (Some 0) (example_commit_arg 2)
          (example_store\<lparr>st_logger := [(''earlier entry'', [])], st_codec_calls := [[9]]\<rparr>))
     = fst (ValidateExtendedCommitInfoProcess_st (lift_handler example_handler) (Some 0) (example_commit_arg 2)
          example_store) \<and>
   observed (snd (ValidateExtendedCommitInfoPrepare_st (lift_handler example_handler) 7
          (example_commit_arg 2) example_store)) = observed example_store \<and>
   observed (snd (ValidateExtendedCommitInfoProcess_st (lift_handler example_handler) (Some 0)
          (example_commit_arg 2) example_store)) = observed example_store \<and>
   fst (ValidateExtendedCommitInfoProcess_st (lift_handler example_handler) (Some 0) (example_commit_arg 2)
          example_store) = Returned (Some (Errorf ''too many prices''))"
proof -
  have hyp: "read_only_collaborators (lift_handler example_handler)"
    by (rule lift_handler_read_only)
  have same: "observed (example_store\<lparr>st_logger := [(''earlier entry'', [])], st_codec_calls := [[9]]\<rparr>)
     = observed example_store"
    by (simp add: observed_def)
  have run: "fst (ValidateExtendedCommitInfoProcess_st (lift_handler example_handler) (Some 0)
          (example_commit_arg 2) example_store) = Returned (Some (Errorf ''too many prices''))"
    by (simp add: store_run_defs)
  from validators_read_only_and_deterministic [OF hyp, of 7 "example_commit_arg 2" example_store "Some 0"]
    hyp same run
  show ?thesis by blast
qed

text \<open>
  C7, as amended. With a non-nil request and collaborators that return,
  \<open>ValidateExtendedCommitInfoProcess\<close> returns, nil or an error, and does not panic,
  for every extended commit info and every content of \<open>ProposedLastCommit.Votes\<close>.
  With an empty vote list the outcome is the supermajority predicate's verdict: the call
  succeeds exactly when the predicate accepts. With a nil request the call panics.
\<close>

theorem Process_returns_when_collaborators_return:
  assumes "returning_collaborators h"
  shows "(\<exists>res w'. ValidateExtendedCommitInfoProcess_st h (Some p) eci w = (Returned res, w')) \<and>
         (sl_len (arg_Votes eci) = 0 \<longrightarrow>
            fst (ValidateExtendedCommitInfoProcess_st h (Some p) eci w)
              = fst (st_validateVoteExtensionsFn h eci w)) \<and>
         fst (ValidateExtendedCommitInfoProcess_st h None eci w) = Panic"
proof (intro conjI impI)
  from never_panics_Process_st [OF assms, of p eci]
  have "fst (ValidateExtendedCommitInfoProcess_st h (Some p) eci w) \<noteq> Panic"
    unfolding never_panics_def by blast
  then show "\<exists>res w'. ValidateExtendedCommitInfoProcess_st h (Some p) eci w = (Returned res, w')"
    by (cases "ValidateExtendedCommitInfoProcess_st h (Some p) eci w";
        cases "fst (ValidateExtendedCommitInfoProcess_st h (Some p) eci w)") auto
next
  assume empty: "sl_len (arg_Votes eci) = 0"
  obtain r w1 where v: "st_validateVoteExtensionsFn h eci w = (r, w1)"
    by (cases "st_validateVoteExtensionsFn h eci w")
  from returning_collaboratorsD(1) [OF assms, of eci] v have np: "r \<noteq> Panic"
    unfolding never_panics_def by (auto dest: spec [of _ w])
  from returning_collaboratorsD(4) [OF assms] have log: "\<And>msg kvs w. fst (st_logger_Error h msg kvs w) \<noteq> Panic"
    unfolding never_panics_def by blast
  show "fst (ValidateExtendedCommitInfoProcess_st h (Some p) eci w)
              = fst (st_validateVoteExtensionsFn h eci w)"
  proof (cases r)
    case Panic
    with np show ?thesis by simp
  next
    case (Returned verdict)
    show ?thesis
    proof (cases verdict)
      case None
      with Returned v empty show ?thesis
        by (simp add: ValidateExtendedCommitInfoProcess_st_def and_then_def)
    next
      case (Some err)
      obtain l w2 where lg: "st_logger_Error h
           ''failed to validate vote extensions; vote extensions may not comprise a supermajority''
           [(''height'', LInt (Height (requests w1 p))), (''err'', LErr err)] w1 = (l, w2)"
        by (cases "st_logger_Error h
           ''failed to validate vote extensions; vote extensions may not comprise a supermajority''
           [(''height'', LInt (Height (requests w1 p))), (''err'', LErr err)] w1")
      with log [of
           "''failed to validate vote extensions; vote extensions may not comprise a supermajority''"
           "[(''height'', LInt (Height (requests w1 p))), (''err'', LErr err)]" w1]
      have "l \<noteq> Panic" by simp
      then obtain u where "l = Returned u" by (cases l) auto
      with Some Returned v lg show ?thesis
        by (simp add: ValidateExtendedCommitInfoProcess_st_def and_then_def yield_def)
    qed
  qed
next
  show "fst (ValidateExtendedCommitInfoProcess_st h None eci w) = Panic"
    by (simp add: ValidateExtendedCommitInfoProcess_st_def and_then_def
          split: prod.splits outcome.splits)
qed


theorem Process_returns_when_collaborators_return_witness:
  "returning_collaborators (lift_handler example_handler) \<and>
   (\<exists>res w'. ValidateExtendedCommitInfoProcess_st (lift_handler example_handler) (Some 0)
                (example_commit_arg 2) example_store = (Returned res, w')) \<and>
   sl_len (arg_Votes (example_commit_arg 0)) = 0 \<and>
   fst (ValidateExtendedCommitInfoProcess_st (lift_handler example_handler) (Some 0)
          (example_commit_arg 0) example_store)
     = fst (st_validateVoteExtensionsFn (lift_handler example_handler) (example_commit_arg 0) example_store) \<and>
   fst (ValidateExtendedCommitInfoProcess_st (lift_handler example_handler) None
          (example_commit_arg 2) example_store) = Panic"
proof -
  have hyp: "returning_collaborators (lift_handler example_handler)"
    by (rule lift_handler_returning)
  have empty: "sl_len (arg_Votes (example_commit_arg 0)) = 0"
    by (simp add: example_commit_arg_def)
  from Process_returns_when_collaborators_return [OF hyp, of 0 "example_commit_arg 2" example_store]
    Process_returns_when_collaborators_return [OF hyp, of 0 "example_commit_arg 0" example_store]
    hyp empty
  show ?thesis by blast
qed

text \<open>
  C7 as stated fails twice. A call with an empty vote list does not succeed when the
  supermajority predicate rejects the empty commit info, in either model; and with a
  non-nil request the call panics when a collaborator does, here the codec on the second
  vote.
\<close>

theorem Process_claim_needs_predicate_and_collaborators:
  "fst (ValidateExtendedCommitInfoProcess example_handler (Some (example_request [[1], [2]]))
          (example_commit []) example_world)
     = Returned (Some (Errorf ''insufficient voting power'')) \<and>
   fst (ValidateExtendedCommitInfoProcess_st (lift_handler example_handler) (Some 0)
          (example_commit_arg 0) example_store)
     = Returned (Some (Errorf ''insufficient voting power'')) \<and>
   fst (ValidateExtendedCommitInfoProcess_st example_panicking_handler (Some 0)
          (example_commit_arg 2) example_store) = Panic"
  by (simp add: store_run_defs)

section \<open>Properties of the combination step\<close>

subsection \<open>Auxiliary facts\<close>

lemma length_filter_insort:
  "length (filter P (insort x xs)) = length (filter P (x # xs))"
  by (induction xs) auto

lemma length_filter_sort: "length (filter P (sort xs)) = length (filter P xs)"
  by (induction xs) (simp_all add: length_filter_insort)

lemma sort_eq_Nil: "sort xs = [] \<longleftrightarrow> xs = []"
  by (metis length_sort length_0_conv)

lemma length_filter_mono:
  "(\<And>x. P x \<Longrightarrow> Q x) \<Longrightarrow> length (filter P xs) \<le> length (filter Q xs)"
  by (induction xs) auto

lemma sorted_count_le:
  fixes s :: "rat list"
  assumes "sorted s" and "k < length s"
  shows "Suc k \<le> length (filter (\<lambda>c. c \<le> s ! k) s)"
proof -
  have all: "\<forall>x\<in>set (take (Suc k) s). x \<le> s ! k"
  proof
    fix x assume "x \<in> set (take (Suc k) s)"
    then obtain i where "i < Suc k" "i < length s" "x = s ! i"
      by (auto simp: in_set_conv_nth)
    with assms show "x \<le> s ! k" by (simp add: sorted_nth_mono)
  qed
  have "filter (\<lambda>c. c \<le> s ! k) s
      = filter (\<lambda>c. c \<le> s ! k) (take (Suc k) s) @ filter (\<lambda>c. c \<le> s ! k) (drop (Suc k) s)"
    by (metis append_take_drop_id filter_append)
  moreover have "filter (\<lambda>c. c \<le> s ! k) (take (Suc k) s) = take (Suc k) s"
    using all by (simp add: filter_id_conv)
  ultimately show ?thesis using assms(2) by simp
qed

lemma sorted_count_ge:
  fixes s :: "rat list"
  assumes "sorted s" and "k < length s"
  shows "length s - k \<le> length (filter (\<lambda>c. s ! k \<le> c) s)"
proof -
  have all: "\<forall>x\<in>set (drop k s). s ! k \<le> x"
  proof
    fix x assume "x \<in> set (drop k s)"
    then obtain i where "i < length s - k" "x = s ! (k + i)"
      by (auto simp: in_set_conv_nth)
    with assms show "s ! k \<le> x" by (simp add: sorted_nth_mono)
  qed
  have "filter (\<lambda>c. s ! k \<le> c) s
      = filter (\<lambda>c. s ! k \<le> c) (take k s) @ filter (\<lambda>c. s ! k \<le> c) (drop k s)"
    by (metis append_take_drop_id filter_append)
  moreover have "filter (\<lambda>c. s ! k \<le> c) (drop k s) = drop k s"
    using all by (simp add: filter_id_conv)
  ultimately show ?thesis by simp
qed

lemma round_half_away_of_int: "round_half_away (of_int k) = k"
  unfolding round_half_away_def by (auto simp: floor_eq_iff ceiling_eq_iff)

lemma median_is_middle:
  assumes "candidates \<noteq> []"
  shows "\<exists>m. median candidates = Some m \<and>
     length candidates \<le> 2 * length (filter (\<lambda>c. c \<le> m) candidates) \<and>
     length candidates \<le> 2 * length (filter (\<lambda>c. m \<le> c) candidates)"
proof -
  define s where "s = sort candidates"
  define n where "n = length candidates"
  have so: "sorted s" and ls: "length s = n" and n0: "0 < n"
    using assms by (simp_all add: s_def n_def)
  show ?thesis
  proof (cases "even n")
    case False
    let ?m = "s ! (n div 2)"
    have k: "n div 2 < length s" using ls n0 by simp
    have m: "median candidates = Some ?m"
      using False n0 by (simp add: median_def Let_def s_def n_def sort_eq_Nil)
    from sorted_count_le [OF so k] have "n \<le> 2 * length (filter (\<lambda>c. c \<le> ?m) s)"
      using False by presburger
    moreover from sorted_count_ge [OF so k] have "n \<le> 2 * length (filter (\<lambda>c. ?m \<le> c) s)"
      using False ls by presburger
    ultimately show ?thesis using m
      unfolding s_def n_def length_filter_sort by blast
  next
    case True
    let ?a = "s ! (n div 2 - 1)" and ?b = "s ! (n div 2)"
    let ?m = "(?a + ?b) / 2"
    have ka: "n div 2 - 1 < length s" and kb: "n div 2 < length s" using ls n0 by simp_all
    have m: "median candidates = Some ?m"
      using True n0 by (simp add: median_def Let_def s_def n_def sort_eq_Nil)
    have "?a \<le> ?b" using so kb by (simp add: sorted_nth_mono)
    then have am: "?a \<le> ?m" and mb: "?m \<le> ?b" by simp_all
    have n2: "2 \<le> n" using True n0 by presburger
    from sorted_count_le [OF so ka] have "n div 2 \<le> length (filter (\<lambda>c. c \<le> ?a) s)"
      using n2 by simp
    also have "\<dots> \<le> length (filter (\<lambda>c. c \<le> ?m) s)"
      using am by (intro length_filter_mono) simp
    finally have le: "n \<le> 2 * length (filter (\<lambda>c. c \<le> ?m) s)" using True by presburger
    from sorted_count_ge [OF so kb] have "n div 2 \<le> length (filter (\<lambda>c. ?b \<le> c) s)"
      using ls by simp
    also have "\<dots> \<le> length (filter (\<lambda>c. ?m \<le> c) s)"
      using mb by (intro length_filter_mono) simp
    finally have ge: "n \<le> 2 * length (filter (\<lambda>c. ?m \<le> c) s)" using True by presburger
    from m le ge show ?thesis
      unfolding s_def n_def length_filter_sort by blast
  qed
qed

subsection \<open>Claims\<close>

text \<open>
  C5. For a ticker with at least \<open>minProviderCount\<close> resolved candidates (and at least
  one), the combination step outputs the median of the candidates as a ScaledPrice: the
  median \<open>m\<close> of the specification (middle value, or average of the two middle values,
  taken in the rationals), rounded half away from zero, hence \<open>m\<close> itself whenever \<open>m\<close>
  is an integer. That \<open>m\<close> is a median in the order sense: at least half of the
  candidates are at most \<open>m\<close> and at least half are at least \<open>m\<close>, so a minority of
  outliers cannot move it past the other candidates. With \<open>minProviderCount = 3\<close> and
  the candidates 100, 102, 1000000 the price is 102.
\<close>

theorem Combination_is_rounded_median:
  assumes "unat (MinProviderCount ticker) \<le> length candidates" and "candidates \<noteq> []"
  shows "(\<exists>m. median candidates = Some m \<and>
            Combination ticker candidates = Some (round_half_away m) \<and>
            (\<forall>k. m = of_int k \<longrightarrow> Combination ticker candidates = Some k) \<and>
            length candidates \<le> 2 * length (filter (\<lambda>c. c \<le> m) candidates) \<and>
            length candidates \<le> 2 * length (filter (\<lambda>c. m \<le> c) candidates)) \<and>
         Combination (ticker\<lparr>MinProviderCount := 3\<rparr>) [100, 102, 1000000] = Some 102"
proof (rule conjI)
  from median_is_middle [OF assms(2)] obtain m where
    m: "median candidates = Some m"
    and le: "length candidates \<le> 2 * length (filter (\<lambda>c. c \<le> m) candidates)"
    and ge: "length candidates \<le> 2 * length (filter (\<lambda>c. m \<le> c) candidates)"
    by blast
  from assms(1) m have c: "Combination ticker candidates = Some (round_half_away m)"
    by (simp add: Combination_def)
  then have "\<forall>k. m = of_int k \<longrightarrow> Combination ticker candidates = Some k"
    by (simp add: round_half_away_of_int)
  with m c le ge show "\<exists>m. median candidates = Some m \<and>
            Combination ticker candidates = Some (round_half_away m) \<and>
            (\<forall>k. m = of_int k \<longrightarrow> Combination ticker candidates = Some k) \<and>
            length candidates \<le> 2 * length (filter (\<lambda>c. c \<le> m) candidates) \<and>
            length candidates \<le> 2 * length (filter (\<lambda>c. m \<le> c) candidates)"
    by blast
next
  show "Combination (ticker\<lparr>MinProviderCount := 3\<rparr>) [100, 102, 1000000] = Some 102"
    using round_half_away_of_int [of 102]
    by (simp add: Combination_def median_def Let_def)
qed

theorem Combination_is_rounded_median_witness:
  "unat (MinProviderCount example_btc_usd) \<le> length [1000000, 100, 102 :: rat] \<and>
   [1000000, 100, 102 :: rat] \<noteq> [] \<and>
   median [1000000, 100, 102] = Some 102 \<and>
   Combination example_btc_usd [1000000, 100, 102] = Some 102 \<and>
   Combination example_btc_usd [100, 102, 1000000] = Some 102"
proof -
  have h1: "unat (MinProviderCount example_btc_usd) \<le> length [1000000, 100, 102 :: rat]"
    by (simp add: example_btc_usd_def)
  have h2: "[1000000, 100, 102 :: rat] \<noteq> []" by simp
  have med: "median [1000000, 100, 102] = Some (of_int 102)"
    by (simp add: median_def Let_def)
  have ex: "example_btc_usd\<lparr>MinProviderCount := 3\<rparr> = example_btc_usd"
    by (simp add: example_btc_usd_def)
  from Combination_is_rounded_median [OF h1 h2] med ex
  have "Combination example_btc_usd [1000000, 100, 102] = Some 102 \<and>
        Combination example_btc_usd [100, 102, 1000000] = Some 102"
    by (metis option.inject)
  with h1 h2 med show ?thesis by simp
qed

section \<open>Properties of the Uniswap V3 price fetcher\<close>

subsection \<open>Auxiliary facts\<close>

lemmas fetch_example_defs = example_fetcher_def example_ticker_def example_state_def GetPool_def
  GetPool_calls_def pool_fails_def batch_elems_def elem_resolves_def zap_error_def observe_latency_def
  Fetch_def BatchCallContext_def NewPriceResponse_def NewPriceResponseWithErr_def
  ParseSqrtPriceX96_def Let_def











lemma pool_fails_persists: "pool_fails u s ticker \<Longrightarrow> pool_fails u (snd (GetPool u other s)) ticker"
  by (auto simp: pool_fails_def GetPool_def Let_def split: option.splits if_splits)

lemma pool_ok_persists: "\<not> pool_fails u s ticker \<Longrightarrow> \<not> pool_fails u (snd (GetPool u other s)) ticker"
  by (auto simp: pool_fails_def GetPool_def Let_def split: option.splits if_splits)

lemma build_batch_fails:
  "\<exists>ticker\<in>set tickers. pool_fails u s ticker \<Longrightarrow> \<exists>err. fst (build_batch u tickers s) = Inl err"
proof (induction tickers arbitrary: s)
  case Nil
  then show ?case by simp
next
  case (Cons ticker tickers)
  obtain pool e s1 where g: "GetPool u ticker s = ((pool, e), s1)"
    by (metis surj_pair)
  show ?case
  proof (cases e)
    case (Some err)
    with g show ?thesis by simp
  next
    case None
    with g have "\<not> pool_fails u s ticker" by (simp add: pool_fails_def)
    with Cons.prems obtain t where t: "t \<in> set tickers" "pool_fails u s t" by auto
    from pool_fails_persists [OF t(2), of ticker] g have "pool_fails u s1 t" by simp
    with t(1) Cons.IH [of s1] obtain err where "fst (build_batch u tickers s1) = Inl err" by blast
    with g None show ?thesis by (auto split: prod.splits sum.splits)
  qed
qed

lemma build_batch_ok:
  "\<forall>ticker\<in>set tickers. \<not> pool_fails u s ticker \<Longrightarrow>
   \<exists>batchElems pools. fst (build_batch u tickers s) = Inr (batchElems, pools) \<and>
      length batchElems = length tickers \<and> length pools = length tickers"
proof (induction tickers arbitrary: s)
  case Nil
  then show ?case by simp
next
  case (Cons ticker tickers)
  obtain pool e s1 where g: "GetPool u ticker s = ((pool, e), s1)"
    by (metis surj_pair)
  from Cons.prems have "\<not> pool_fails u s ticker" by simp
  with g have e: "e = None" by (simp add: pool_fails_def)
  have "\<forall>t\<in>set tickers. \<not> pool_fails u s1 t"
    using Cons.prems pool_ok_persists [of u s _ ticker] g by auto
  from Cons.IH [OF this] obtain batchElems pools where
    "fst (build_batch u tickers s1) = Inr (batchElems, pools)"
    "length batchElems = length tickers" "length pools = length tickers" by blast
  with g e show ?case by (auto simp: Let_def split: prod.splits sum.splits)
qed

lemma unresolve_all_lookup:
  "unresolve_all tickers err m ticker =
     (if ticker \<in> set tickers then Some (UnresolvedResult err) else m ticker)"
  by (induction tickers arbitrary: m) auto

lemma NewPriceResponseWithErr_maps:
  "Resolved (NewPriceResponseWithErr tickers err) = Map.empty"
  "ticker \<in> set tickers \<Longrightarrow>
     UnResolved (NewPriceResponseWithErr tickers err) ticker = Some (UnresolvedResult err)"
  by (simp_all add: NewPriceResponseWithErr_def unresolve_all_lookup)

lemma parse_results_doms:
  "dom (fst (parse_results u i xs resolved unResolved s))
     = dom resolved \<union> {t. \<exists>r p. (t, r, p) \<in> set xs \<and> elem_resolves u r} \<and>
   dom (fst (snd (parse_results u i xs resolved unResolved s)))
     = dom unResolved \<union> {t. \<exists>r p. (t, r, p) \<in> set xs \<and> \<not> elem_resolves u r}"
proof (induction xs arbitrary: i resolved unResolved s)
  case Nil
  show ?case by simp
next
  case (Cons x xs)
  obtain ticker result pool where x: "x = (ticker, result, pool)" by (cases x)
  note IH1 = Cons.IH [THEN conjunct1] and IH2 = Cons.IH [THEN conjunct2]
  show ?case
  proof (cases "elem_resolves u result")
    case True
    then obtain sqrtPriceX96 where ok: "Error result = None"
        "ParseSqrtPriceX96 u (Result result) = Inr sqrtPriceX96"
      by (auto simp: elem_resolves_def split: sum.splits)
    have step: "parse_results u i (x # xs) resolved unResolved s
        = parse_results u (Suc i) xs
            (resolved(ticker \<mapsto> \<lparr>pr_Value = ScaledIntPrice u ticker pool sqrtPriceX96,
                                   pr_Timestamp = time_Now u i\<rparr>)) unResolved s"
      using x ok by simp
    show ?thesis unfolding step IH1 IH2 using True x by auto
  next
    case False
    have "\<exists>e c z. parse_results u i (x # xs) resolved unResolved s
        = parse_results u (Suc i) xs resolved
            (unResolved(ticker \<mapsto> UnresolvedResult (NewErrorWithCode e c))) z"
    proof (cases "Error result")
      case (Some err)
      have "parse_results u i (x # xs) resolved unResolved s
        = parse_results u (Suc i) xs resolved
            (unResolved(ticker \<mapsto> UnresolvedResult (NewErrorWithCode err ErrorUnknown)))
            (zap_error ''failed to batch call to ethereum network for ticker''
               [ZTicker ticker, ZError err] s)"
        using x Some by simp
      then show ?thesis by blast
    next
      case None
      with False obtain err where "ParseSqrtPriceX96 u (Result result) = Inl err"
        by (auto simp: elem_resolves_def split: sum.splits)
      with None have "parse_results u i (x # xs) resolved unResolved s
        = parse_results u (Suc i) xs resolved
            (unResolved(ticker \<mapsto> UnresolvedResult (NewErrorWithCode err ErrorFailedToParsePrice)))
            (zap_error ''failed to parse sqrt price x96'' [ZTicker ticker, ZError err] s)"
        using x by simp
      then show ?thesis by blast
    qed
    then obtain e c z where step: "parse_results u i (x # xs) resolved unResolved s
        = parse_results u (Suc i) xs resolved
            (unResolved(ticker \<mapsto> UnresolvedResult (NewErrorWithCode e c))) z"
      by blast
    show ?thesis unfolding step IH1 IH2 using False x by auto
  qed
qed

lemma set_zip3:
  "length ys = length xs \<Longrightarrow> length zs = length xs \<Longrightarrow>
   (\<exists>p. (t, r, p) \<in> set (zip xs (zip ys zs))) \<longleftrightarrow> (\<exists>i<length xs. t = xs ! i \<and> r = ys ! i)"
  by (fastforce simp: in_set_zip)

lemma collect_zip3:
  assumes "length ys = length xs" and "length zs = length xs"
  shows "{t. \<exists>r p. (t, r, p) \<in> set (zip xs (zip ys zs)) \<and> P r} = {xs ! i | i. i < length xs \<and> P (ys ! i)}"
proof -
  have "{t. \<exists>r p. (t, r, p) \<in> set (zip xs (zip ys zs)) \<and> P r}
      = {t. \<exists>r. (\<exists>p. (t, r, p) \<in> set (zip xs (zip ys zs))) \<and> P r}" by blast
  also have "\<dots> = {t. \<exists>r. (\<exists>i<length xs. t = xs ! i \<and> r = ys ! i) \<and> P r}"
    by (simp only: set_zip3 [OF assms])
  also have "\<dots> = {xs ! i | i. i < length xs \<and> P (ys ! i)}" by blast
  finally show ?thesis .
qed

lemma Fetch_success_doms:
  assumes ok: "\<forall>ticker\<in>set tickers. \<not> pool_fails u s ticker"
    and batch: "batch_err (client u) (batch_elems u tickers s) = None"
  shows "dom (Resolved (fst (Fetch u tickers s)))
           = {tickers ! i | i. i < length tickers \<and>
                elem_resolves u (batch_reply (client u) (batch_elems u tickers s) i)}"
    and "dom (UnResolved (fst (Fetch u tickers s)))
           = {tickers ! i | i. i < length tickers \<and>
                \<not> elem_resolves u (batch_reply (client u) (batch_elems u tickers s) i)}"
proof -
  from ok build_batch_ok [of tickers u s] obtain batchElems pools where
    b: "fst (build_batch u tickers s) = Inr (batchElems, pools)"
    and len: "length batchElems = length tickers" "length pools = length tickers" by blast
  then have be: "batch_elems u tickers s = batchElems" by (simp add: batch_elems_def)
  obtain s1 where bb: "build_batch u tickers s = (Inr (batchElems, pools), s1)"
    using b by (cases "build_batch u tickers s") simp
  define replied where "replied = map (batch_reply (client u) batchElems) [0..<length batchElems]"
  define res where "res = parse_results u 0 (zip tickers (zip replied pools)) Map.empty Map.empty s1"
  have lr: "length replied = length tickers" using len by (simp add: replied_def)
  have nth: "\<And>i. i < length tickers \<Longrightarrow> replied ! i = batch_reply (client u) batchElems i"
    using len by (simp add: replied_def)
  have F: "fst (Fetch u tickers s) = NewPriceResponse (fst res) (fst (snd res))"
    using bb batch be
    by (simp add: Fetch_def BatchCallContext_def res_def replied_def split: prod.splits)
  have R: "{t. \<exists>r p. (t, r, p) \<in> set (zip tickers (zip replied pools)) \<and> elem_resolves u r}
      = {tickers ! i | i. i < length tickers \<and> elem_resolves u (batch_reply (client u) batchElems i)}"
    unfolding collect_zip3 [OF lr len(2)] using nth by auto
  have U: "{t. \<exists>r p. (t, r, p) \<in> set (zip tickers (zip replied pools)) \<and> \<not> elem_resolves u r}
      = {tickers ! i | i. i < length tickers \<and> \<not> elem_resolves u (batch_reply (client u) batchElems i)}"
    unfolding collect_zip3 [OF lr len(2)] using nth by auto
  from parse_results_doms [of u 0 "zip tickers (zip replied pools)" Map.empty Map.empty s1] R U
  have "dom (fst res) = {tickers ! i | i. i < length tickers \<and>
            elem_resolves u (batch_reply (client u) batchElems i)}"
    and "dom (fst (snd res)) = {tickers ! i | i. i < length tickers \<and>
            \<not> elem_resolves u (batch_reply (client u) batchElems i)}"
    by (simp_all add: res_def)
  with F be show "dom (Resolved (fst (Fetch u tickers s)))
           = {tickers ! i | i. i < length tickers \<and>
                elem_resolves u (batch_reply (client u) (batch_elems u tickers s) i)}"
    and "dom (UnResolved (fst (Fetch u tickers s)))
           = {tickers ! i | i. i < length tickers \<and>
                \<not> elem_resolves u (batch_reply (client u) (batch_elems u tickers s) i)}"
    by (simp_all add: NewPriceResponse_def)
qed

subsection \<open>Claims\<close>

text \<open>
  C8. If \<open>GetPool\<close> fails for some input ticker, \<open>Fetch\<close> returns the response that
  resolves nothing and marks every input ticker unresolved with one error of code
  \<open>ErrorFailedToDecode\<close>. If \<open>GetPool\<close> succeeds for every input ticker and the batched
  call fails as a whole, the response resolves nothing and marks every input ticker
  unresolved with the batch error under code \<open>ErrorAPIGeneral\<close>.
\<close>

theorem Fetch_whole_batch_failure_resolves_nothing:
  "((\<exists>ticker\<in>set tickers. pool_fails u s ticker) \<longrightarrow>
      (\<exists>err. fst (Fetch u tickers s)
               = NewPriceResponseWithErr tickers
                   (NewErrorWithCode (Wrapf ''failed to get pool'' err) ErrorFailedToDecode) \<and>
             Resolved (fst (Fetch u tickers s)) = Map.empty \<and>
             (\<forall>ticker\<in>set tickers. UnResolved (fst (Fetch u tickers s)) ticker
                = Some (UnresolvedResult
                     (NewErrorWithCode (Wrapf ''failed to get pool'' err) ErrorFailedToDecode))))) \<and>
   (\<forall>err. (\<forall>ticker\<in>set tickers. \<not> pool_fails u s ticker) \<and>
          batch_err (client u) (batch_elems u tickers s) = Some err \<longrightarrow>
      fst (Fetch u tickers s) = NewPriceResponseWithErr tickers (NewErrorWithCode err ErrorAPIGeneral) \<and>
      Resolved (fst (Fetch u tickers s)) = Map.empty \<and>
      (\<forall>ticker\<in>set tickers. UnResolved (fst (Fetch u tickers s)) ticker
         = Some (UnresolvedResult (NewErrorWithCode err ErrorAPIGeneral))))"
proof (rule conjI)
  show "(\<exists>ticker\<in>set tickers. pool_fails u s ticker) \<longrightarrow>
      (\<exists>err. fst (Fetch u tickers s)
               = NewPriceResponseWithErr tickers
                   (NewErrorWithCode (Wrapf ''failed to get pool'' err) ErrorFailedToDecode) \<and>
             Resolved (fst (Fetch u tickers s)) = Map.empty \<and>
             (\<forall>ticker\<in>set tickers. UnResolved (fst (Fetch u tickers s)) ticker
                = Some (UnresolvedResult
                     (NewErrorWithCode (Wrapf ''failed to get pool'' err) ErrorFailedToDecode))))"
  proof
    assume "\<exists>ticker\<in>set tickers. pool_fails u s ticker"
    from build_batch_fails [OF this] obtain err where "fst (build_batch u tickers s) = Inl err" ..
    then have "fst (Fetch u tickers s)
               = NewPriceResponseWithErr tickers
                   (NewErrorWithCode (Wrapf ''failed to get pool'' err) ErrorFailedToDecode)"
      by (cases "build_batch u tickers s") (simp add: Fetch_def)
    then show "\<exists>err. fst (Fetch u tickers s)
               = NewPriceResponseWithErr tickers
                   (NewErrorWithCode (Wrapf ''failed to get pool'' err) ErrorFailedToDecode) \<and>
             Resolved (fst (Fetch u tickers s)) = Map.empty \<and>
             (\<forall>ticker\<in>set tickers. UnResolved (fst (Fetch u tickers s)) ticker
                = Some (UnresolvedResult
                     (NewErrorWithCode (Wrapf ''failed to get pool'' err) ErrorFailedToDecode)))"
      by (auto simp: NewPriceResponseWithErr_maps)
  qed
next
  have "fst (Fetch u tickers s) = NewPriceResponseWithErr tickers (NewErrorWithCode err ErrorAPIGeneral) \<and>
      Resolved (fst (Fetch u tickers s)) = Map.empty \<and>
      (\<forall>ticker\<in>set tickers. UnResolved (fst (Fetch u tickers s)) ticker
         = Some (UnresolvedResult (NewErrorWithCode err ErrorAPIGeneral)))"
    if a: "(\<forall>ticker\<in>set tickers. \<not> pool_fails u s ticker) \<and>
          batch_err (client u) (batch_elems u tickers s) = Some err" for err
  proof -
    from a build_batch_ok [of tickers u s] obtain batchElems pools where
      b: "fst (build_batch u tickers s) = Inr (batchElems, pools)" by blast
    then have "batch_elems u tickers s = batchElems" by (simp add: batch_elems_def)
    with a have "batch_err (client u) batchElems = Some err" by simp
    with b have "fst (Fetch u tickers s)
        = NewPriceResponseWithErr tickers (NewErrorWithCode err ErrorAPIGeneral)"
      by (cases "build_batch u tickers s") (simp add: Fetch_def BatchCallContext_def)
    then show ?thesis by (auto simp: NewPriceResponseWithErr_maps)
  qed
  then show "\<forall>err. (\<forall>ticker\<in>set tickers. \<not> pool_fails u s ticker) \<and>
          batch_err (client u) (batch_elems u tickers s) = Some err \<longrightarrow>
      fst (Fetch u tickers s) = NewPriceResponseWithErr tickers (NewErrorWithCode err ErrorAPIGeneral) \<and>
      Resolved (fst (Fetch u tickers s)) = Map.empty \<and>
      (\<forall>ticker\<in>set tickers. UnResolved (fst (Fetch u tickers s)) ticker
         = Some (UnresolvedResult (NewErrorWithCode err ErrorAPIGeneral)))"
    by blast
qed


theorem Fetch_whole_batch_failure_resolves_nothing_witness:
  "example_ticker ''BAD'' ''0x''
     \<in> set [example_ticker ''ETH'' ''0xabc'', example_ticker ''BAD'' ''0x''] \<and>
   pool_fails example_fetcher example_state (example_ticker ''BAD'' ''0x'') \<and>
   (\<exists>err. fst (Fetch example_fetcher [example_ticker ''ETH'' ''0xabc'', example_ticker ''BAD'' ''0x'']
                 example_state)
           = NewPriceResponseWithErr [example_ticker ''ETH'' ''0xabc'', example_ticker ''BAD'' ''0x'']
               (NewErrorWithCode (Wrapf ''failed to get pool'' err) ErrorFailedToDecode) \<and>
         Resolved (fst (Fetch example_fetcher
                 [example_ticker ''ETH'' ''0xabc'', example_ticker ''BAD'' ''0x''] example_state))
           = Map.empty \<and>
         UnResolved (fst (Fetch example_fetcher
                 [example_ticker ''ETH'' ''0xabc'', example_ticker ''BAD'' ''0x''] example_state))
             (example_ticker ''ETH'' ''0xabc'')
           = Some (UnresolvedResult
                (NewErrorWithCode (Wrapf ''failed to get pool'' err) ErrorFailedToDecode))) \<and>
   \<not> pool_fails example_fetcher example_state (example_ticker ''ETH'' ''0xabc'') \<and>
   \<not> pool_fails example_fetcher example_state (example_ticker ''BTC'' ''0xdef'') \<and>
   \<not> pool_fails example_fetcher example_state (example_ticker ''SOL'' ''0x123'') \<and>
   batch_err (client example_fetcher)
     (batch_elems example_fetcher
        [example_ticker ''ETH'' ''0xabc'', example_ticker ''BTC'' ''0xdef'', example_ticker ''SOL'' ''0x123'']
        example_state)
     = Some (Errorf ''batch too large'') \<and>
   fst (Fetch example_fetcher
        [example_ticker ''ETH'' ''0xabc'', example_ticker ''BTC'' ''0xdef'', example_ticker ''SOL'' ''0x123'']
        example_state)
     = NewPriceResponseWithErr
        [example_ticker ''ETH'' ''0xabc'', example_ticker ''BTC'' ''0xdef'', example_ticker ''SOL'' ''0x123'']
        (NewErrorWithCode (Errorf ''batch too large'') ErrorAPIGeneral) \<and>
   UnResolved (fst (Fetch example_fetcher
        [example_ticker ''ETH'' ''0xabc'', example_ticker ''BTC'' ''0xdef'', example_ticker ''SOL'' ''0x123'']
        example_state)) (example_ticker ''SOL'' ''0x123'')
     = Some (UnresolvedResult (NewErrorWithCode (Errorf ''batch too large'') ErrorAPIGeneral))"
proof -
  let ?eth = "example_ticker ''ETH'' ''0xabc''"
  let ?btc = "example_ticker ''BTC'' ''0xdef''"
  let ?sol = "example_ticker ''SOL'' ''0x123''"
  let ?bad = "example_ticker ''BAD'' ''0x''"
  have mem: "?bad \<in> set [?eth, ?bad]" "?eth \<in> set [?eth, ?bad]" by simp_all
  have bad: "pool_fails example_fetcher example_state ?bad" by (simp add: fetch_example_defs)
  from mem(1) bad Fetch_whole_batch_failure_resolves_nothing [of "[?eth, ?bad]" example_fetcher example_state]
  obtain err where a: "fst (Fetch example_fetcher [?eth, ?bad] example_state)
           = NewPriceResponseWithErr [?eth, ?bad]
               (NewErrorWithCode (Wrapf ''failed to get pool'' err) ErrorFailedToDecode)"
      "Resolved (fst (Fetch example_fetcher [?eth, ?bad] example_state)) = Map.empty"
      "\<forall>ticker\<in>set [?eth, ?bad]. UnResolved (fst (Fetch example_fetcher [?eth, ?bad] example_state)) ticker
           = Some (UnresolvedResult
                (NewErrorWithCode (Wrapf ''failed to get pool'' err) ErrorFailedToDecode))"
    by blast
  from a(3) mem(2) have a3: "UnResolved (fst (Fetch example_fetcher [?eth, ?bad] example_state)) ?eth
           = Some (UnresolvedResult
                (NewErrorWithCode (Wrapf ''failed to get pool'' err) ErrorFailedToDecode))"
    by blast
  have ok: "\<not> pool_fails example_fetcher example_state ?eth"
    "\<not> pool_fails example_fetcher example_state ?btc"
    "\<not> pool_fails example_fetcher example_state ?sol"
    by (simp_all add: fetch_example_defs)
  then have all_ok: "\<forall>ticker\<in>set [?eth, ?btc, ?sol]. \<not> pool_fails example_fetcher example_state ticker"
    by simp
  have be: "batch_err (client example_fetcher)
     (batch_elems example_fetcher [?eth, ?btc, ?sol] example_state) = Some (Errorf ''batch too large'')"
    by (simp add: fetch_example_defs)
  from all_ok be Fetch_whole_batch_failure_resolves_nothing [of "[?eth, ?btc, ?sol]" example_fetcher example_state]
  have b: "fst (Fetch example_fetcher [?eth, ?btc, ?sol] example_state)
     = NewPriceResponseWithErr [?eth, ?btc, ?sol]
        (NewErrorWithCode (Errorf ''batch too large'') ErrorAPIGeneral) \<and>
      (\<forall>ticker\<in>set [?eth, ?btc, ?sol].
         UnResolved (fst (Fetch example_fetcher [?eth, ?btc, ?sol] example_state)) ticker
           = Some (UnresolvedResult (NewErrorWithCode (Errorf ''batch too large'') ErrorAPIGeneral)))"
    by blast
  have "?sol \<in> set [?eth, ?btc, ?sol]" by simp
  with b have b2: "UnResolved (fst (Fetch example_fetcher [?eth, ?btc, ?sol] example_state)) ?sol
           = Some (UnresolvedResult (NewErrorWithCode (Errorf ''batch too large'') ErrorAPIGeneral))"
    by blast
  from mem(1) bad a(1) a(2) a3 ok be b b2 show ?thesis by blast
qed

text \<open>
  C9, as amended. When \<open>GetPool\<close> succeeds for every input ticker and the batched call
  succeeds, the resolved map holds exactly the tickers of the indices whose replied batch
  element has no RPC error and parses, the unresolved map exactly the tickers of the
  other indices. So every input ticker is in at least one of the two maps, a failing
  index does not keep another index from resolving, and when the input tickers are
  pairwise distinct no ticker is in both maps.
\<close>

theorem Fetch_partitions_distinct_tickers:
  assumes "\<forall>ticker\<in>set tickers. \<not> pool_fails u s ticker"
    and "batch_err (client u) (batch_elems u tickers s) = None"
  shows "dom (Resolved (fst (Fetch u tickers s)))
           = {tickers ! i | i. i < length tickers \<and>
                elem_resolves u (batch_reply (client u) (batch_elems u tickers s) i)} \<and>
         dom (UnResolved (fst (Fetch u tickers s)))
           = {tickers ! i | i. i < length tickers \<and>
                \<not> elem_resolves u (batch_reply (client u) (batch_elems u tickers s) i)} \<and>
         dom (Resolved (fst (Fetch u tickers s))) \<union> dom (UnResolved (fst (Fetch u tickers s)))
           = set tickers \<and>
         (distinct tickers \<longrightarrow>
            dom (Resolved (fst (Fetch u tickers s))) \<inter> dom (UnResolved (fst (Fetch u tickers s))) = {})"
proof -
  note d = Fetch_success_doms [OF assms]
  have un: "dom (Resolved (fst (Fetch u tickers s))) \<union> dom (UnResolved (fst (Fetch u tickers s)))
           = set tickers"
    unfolding d by (auto simp: set_conv_nth)
  have "dom (Resolved (fst (Fetch u tickers s))) \<inter> dom (UnResolved (fst (Fetch u tickers s))) = {}"
    if "distinct tickers"
    unfolding d using that by (auto simp: nth_eq_iff_index_eq)
  with d un show ?thesis by blast
qed


theorem Fetch_partitions_distinct_tickers_witness:
  "\<not> pool_fails example_fetcher example_state (example_ticker ''ETH'' ''0xabc'') \<and>
   \<not> pool_fails example_fetcher example_state (example_ticker ''BTC'' ''0xdef'') \<and>
   batch_err (client example_fetcher)
     (batch_elems example_fetcher [example_ticker ''ETH'' ''0xabc'', example_ticker ''BTC'' ''0xdef'']
        example_state) = None \<and>
   distinct [example_ticker ''ETH'' ''0xabc'', example_ticker ''BTC'' ''0xdef''] \<and>
   example_ticker ''ETH'' ''0xabc'' \<in> dom (UnResolved (fst (Fetch example_fetcher
       [example_ticker ''ETH'' ''0xabc'', example_ticker ''BTC'' ''0xdef''] example_state))) \<and>
   example_ticker ''BTC'' ''0xdef'' \<in> dom (Resolved (fst (Fetch example_fetcher
       [example_ticker ''ETH'' ''0xabc'', example_ticker ''BTC'' ''0xdef''] example_state))) \<and>
   dom (Resolved (fst (Fetch example_fetcher
       [example_ticker ''ETH'' ''0xabc'', example_ticker ''BTC'' ''0xdef''] example_state)))
     \<union> dom (UnResolved (fst (Fetch example_fetcher
       [example_ticker ''ETH'' ''0xabc'', example_ticker ''BTC'' ''0xdef''] example_state)))
     = set [example_ticker ''ETH'' ''0xabc'', example_ticker ''BTC'' ''0xdef''] \<and>
   dom (Resolved (fst (Fetch example_fetcher
       [example_ticker ''ETH'' ''0xabc'', example_ticker ''BTC'' ''0xdef''] example_state)))
     \<inter> dom (UnResolved (fst (Fetch example_fetcher
       [example_ticker ''ETH'' ''0xabc'', example_ticker ''BTC'' ''0xdef''] example_state)))
     = {}"
proof -
  let ?eth = "example_ticker ''ETH'' ''0xabc''"
  let ?btc = "example_ticker ''BTC'' ''0xdef''"
  have ok: "\<not> pool_fails example_fetcher example_state ?eth"
    "\<not> pool_fails example_fetcher example_state ?btc"
    by (simp_all add: fetch_example_defs)
  then have all_ok: "\<forall>ticker\<in>set [?eth, ?btc]. \<not> pool_fails example_fetcher example_state ticker"
    by simp
  have be: "batch_err (client example_fetcher) (batch_elems example_fetcher [?eth, ?btc] example_state) = None"
    by (simp add: fetch_example_defs)
  have d: "distinct [?eth, ?btc]" by (simp add: example_ticker_def)
  have u: "?eth \<in> dom (UnResolved (fst (Fetch example_fetcher [?eth, ?btc] example_state)))"
    by (simp add: fetch_example_defs)
  have r: "?btc \<in> dom (Resolved (fst (Fetch example_fetcher [?eth, ?btc] example_state)))"
    by (simp add: fetch_example_defs)
  from Fetch_partitions_distinct_tickers [OF all_ok be] d ok be u r show ?thesis by blast
qed

text \<open>
  C9 as stated fails when a ticker occurs twice in the input: with the first batch
  element answered by an RPC error and the second by a result, the one ticker is in the
  resolved and in the unresolved map, although every \<open>GetPool\<close> and the batched call
  succeed.
\<close>

theorem Fetch_duplicate_ticker_in_both_maps:
  "\<not> pool_fails example_fetcher example_state (example_ticker ''ETH'' ''0xabc'') \<and>
   batch_err (client example_fetcher)
     (batch_elems example_fetcher [example_ticker ''ETH'' ''0xabc'', example_ticker ''ETH'' ''0xabc'']
        example_state) = None \<and>
   example_ticker ''ETH'' ''0xabc'' \<in> dom (Resolved (fst (Fetch example_fetcher
       [example_ticker ''ETH'' ''0xabc'', example_ticker ''ETH'' ''0xabc''] example_state))) \<and>
   example_ticker ''ETH'' ''0xabc'' \<in> dom (UnResolved (fst (Fetch example_fetcher
       [example_ticker ''ETH'' ''0xabc'', example_ticker ''ETH'' ''0xabc''] example_state)))"
  by (simp add: fetch_example_defs)



end
